theory Spec2Isabelle
  imports Main
begin

section \<open>Characters and the C character classification\<close>

text \<open>
  Both programs work on 8-bit characters and never call \<^verbatim>\<open>setlocale\<close>, so the functions
  of \<^verbatim>\<open>ctype.h\<close> classify in the "C" locale: the control characters are the codes
  0..31 and 127, the whitespace characters are the space and the codes 9..13
  (tab, newline, vertical tab, form feed, carriage return), and \<^verbatim>\<open>tolower\<close> changes
  only the letters A..Z. Codes above 127 belong to no class.
\<close>

definition NUL :: char where
  "NUL = CHR 0x00"

definition iscntrl :: "char \<Rightarrow> bool" where
  "iscntrl c = ((of_char c :: nat) < 32 \<or> (of_char c :: nat) = 127)"

definition isspace :: "char \<Rightarrow> bool" where
  "isspace c = (c = CHR '' '' \<or> (9 \<le> (of_char c :: nat) \<and> (of_char c :: nat) \<le> 13))"

definition tolower :: "char \<Rightarrow> char" where
  "tolower c = (if 65 \<le> (of_char c :: nat) \<and> (of_char c :: nat) \<le> 90
                then char_of ((of_char c :: nat) + 32) else c)"

section \<open>Folder name sanitization\<close>

text \<open>The constants of \<^verbatim>\<open>main.c\<close>.\<close>

definition MAX_PATH_LEN :: nat where
  "MAX_PATH_LEN = 1024"

definition MAX_NAME_LEN :: nat where
  "MAX_NAME_LEN = 256"

text \<open>The reserved characters \<^verbatim>\<open><>:"/\|?*\<close>, the local \<^verbatim>\<open>invalid\<close> of both functions.\<close>

definition invalid :: string where
  "invalid = [CHR ''<'', CHR ''>'', CHR '':'', CHR 0x22, CHR ''/'', CHR 0x5C,
              CHR ''|'', CHR ''?'', CHR ''*'']"

text \<open>
  \<^verbatim>\<open>sanitize_folder_name\<close> of \<^verbatim>\<open>main.c\<close>. The input is the memory behind the pointer
  \<^verbatim>\<open>input\<close>: the loop stops at the first NUL (the end of the list stands for the
  terminator) or when \<^verbatim>\<open>j\<close> reaches \<^verbatim>\<open>MAX_NAME_LEN - 1\<close>. The second argument is what
  has been written to \<^verbatim>\<open>output\<close> so far, so \<^verbatim>\<open>j\<close> is its length.
\<close>

fun sanitize_folder_name_loop :: "string \<Rightarrow> string \<Rightarrow> string" where
  "sanitize_folder_name_loop [] output = output"
| "sanitize_folder_name_loop (c # cs) output =
     (if c \<noteq> NUL \<and> length output < MAX_NAME_LEN - 1 then
        (if c \<in> set invalid \<or> iscntrl c then sanitize_folder_name_loop cs output
         else if isspace c then sanitize_folder_name_loop cs (output @ [CHR ''_''])
         else sanitize_folder_name_loop cs (output @ [c]))
      else output)"

definition sanitize_folder_name :: "string \<Rightarrow> string" where
  "sanitize_folder_name input = sanitize_folder_name_loop input []"

text \<open>
  \<^verbatim>\<open>sanitizeFolderName\<close> of \<^verbatim>\<open>main.cpp\<close>: a range-for over a \<^verbatim>\<open>std::string\<close>, which
  may hold any character and has no length limit.
\<close>

fun sanitizeFolderName_loop :: "string \<Rightarrow> string \<Rightarrow> string" where
  "sanitizeFolderName_loop [] output = output"
| "sanitizeFolderName_loop (ch # rest) output =
     (if iscntrl ch \<or> ch \<in> set invalid then sanitizeFolderName_loop rest output
      else sanitizeFolderName_loop rest (output @ [if isspace ch then CHR ''_'' else ch]))"

definition sanitizeFolderName :: "string \<Rightarrow> string" where
  "sanitizeFolderName input = sanitizeFolderName_loop input []"

text \<open>
  What both loops compute, as list functions: the characters that are kept, and what a
  kept character is written as.
\<close>

definition kept :: "char \<Rightarrow> bool" where
  "kept c = (c \<notin> set invalid \<and> \<not> iscntrl c)"

definition written :: "char \<Rightarrow> char" where
  "written c = (if isspace c then CHR ''_'' else c)"

section \<open>Console input and output\<close>

definition newline :: char where
  "newline = CHR 0x0A"

definition carriage_return :: char where
  "carriage_return = CHR 0x0D"

definition dquote :: char where
  "dquote = CHR 0x22"

definition backslash :: char where
  "backslash = CHR 0x5C"

text \<open>
  The part of the machine the two programs touch. Standard input is the sequence of
  characters still to be read (after the text-mode translation of line ends);
  \<open>stdin_good\<close> is the state of \<^verbatim>\<open>std::cin\<close> (false once end of file was met), which
  only the C++ program consults. Output streams are the list of pieces written, one for
  each \<^verbatim>\<open>printf\<close> call or \<^verbatim>\<open><<\<close> chain. The fields from \<open>can_write\<close> on are
  answers of the operating system that the programs cannot influence.
\<close>

record system =
  USERPROFILE :: "string option"
  files :: "string \<rightharpoonup> string"
  dirs :: "string set"
  cwd :: string
  stdin :: string
  stdin_good :: bool
  stdout :: "string list"
  stderr :: "string list"
  explorer :: "string list"
  can_write :: "string \<Rightarrow> bool"
  can_mkdir :: "string \<Rightarrow> bool"
  can_chdir :: "string \<Rightarrow> bool"
  can_open :: "string \<Rightarrow> bool"
  downloads :: "string option"

definition print_out :: "string \<Rightarrow> system \<Rightarrow> system" where
  "print_out msg s = s\<lparr>stdout := stdout s @ [msg]\<rparr>"

definition print_err :: "string \<Rightarrow> system \<Rightarrow> system" where
  "print_err msg s = s\<lparr>stderr := stderr s @ [msg]\<rparr>"

text \<open>
  \<^verbatim>\<open>fgets(buf, n, stream)\<close> on the characters of a stream: at end of file it returns
  NULL and leaves the buffer as it was (\<open>None\<close>); otherwise it stores at most
  \<open>n - 1\<close> characters, stopping after the first newline, and the result is what was
  stored and what remains of the stream.
\<close>

definition fgets :: "nat \<Rightarrow> string \<Rightarrow> (string \<times> string) option" where
  "fgets n stream =
     (if stream = [] then None
      else let window = take (n - 1) stream;
               got = take (Suc (length (takeWhile (\<lambda>c. c \<noteq> newline) window))) window
           in Some (got, drop (length got) stream))"

text \<open>
  \<^verbatim>\<open>fgets(buf, n, stdin)\<close> with its result ignored, as both callers in \<^verbatim>\<open>main.c\<close> do:
  the new content of the buffer (the old one at end of file) and the system after it.
\<close>

definition fgets_stdin :: "string \<Rightarrow> nat \<Rightarrow> system \<Rightarrow> string \<times> system" where
  "fgets_stdin buf n s =
     (case fgets n (stdin s) of
        None \<Rightarrow> (buf, s)
      | Some (got, rest) \<Rightarrow> (got, s\<lparr>stdin := rest\<rparr>))"

text \<open>
  \<^verbatim>\<open>b[0]\<close> for a buffer holding a C string or for a \<^verbatim>\<open>std::string\<close>: the terminating
  NUL when the string is empty.
\<close>

definition first_char :: "string \<Rightarrow> char" where
  "first_char b = (case b of [] \<Rightarrow> NUL | c # _ \<Rightarrow> c)"

text \<open>\<^verbatim>\<open>strcspn(s, reject)\<close>, and the C string that \<^verbatim>\<open>s[strcspn(s, reject)] = '\0'\<close> leaves.\<close>

definition strcspn :: "string \<Rightarrow> string \<Rightarrow> nat" where
  "strcspn s reject = length (takeWhile (\<lambda>c. c \<noteq> NUL \<and> c \<notin> set reject) s)"

definition cut_line_end :: "string \<Rightarrow> string" where
  "cut_line_end s = take (strcspn s [carriage_return, newline]) s"

text \<open>
  \<^verbatim>\<open>std::getline(stream, str)\<close> on a stream given by its remaining characters and its
  state: on a stream that is not good nothing is extracted and \<open>str\<close> keeps its value;
  otherwise \<open>str\<close> becomes the characters before the first newline, the newline is
  discarded, and meeting the end of the stream leaves it not good.
\<close>

definition getline :: "string \<Rightarrow> string \<times> bool \<Rightarrow> string \<times> (string \<times> bool)" where
  "getline str stream =
     (if \<not> snd stream then (str, stream)
      else let line = takeWhile (\<lambda>c. c \<noteq> newline) (fst stream);
               rest = drop (length line) (fst stream)
           in if rest = [] then (line, ([], False)) else (line, (tl rest, True)))"

definition getline_cin :: "string \<Rightarrow> system \<Rightarrow> string \<times> system" where
  "getline_cin str s =
     (let (line, stream) = getline str (stdin s, stdin_good s)
      in (line, s\<lparr>stdin := fst stream, stdin_good := snd stream\<rparr>))"

section \<open>The confirmation loop\<close>

definition sanitized_message :: "string \<Rightarrow> string" where
  "sanitized_message name =
     ''Sanitized folder name: '' @ [dquote] @ name @ [dquote, newline]"

text \<open>
  \<^verbatim>\<open>prompt_user_for_folder_name\<close> of \<^verbatim>\<open>main.c\<close>. The buffer \<^verbatim>\<open>response\<close> is declared
  without an initial value and outlives the iterations, so its content is an argument.
  One pass through the body of \<^verbatim>\<open>while (1)\<close> either leaves the loop (\<open>Inl\<close>: the
  confirmed name) or goes round again (\<open>Inr\<close>: the new contents of \<^verbatim>\<open>finalName\<close> and
  \<^verbatim>\<open>response\<close>). The loop has no bound: \<open>None\<close> is a run that never returns.
\<close>

definition prompt_user_for_folder_name_body ::
  "string \<Rightarrow> string \<Rightarrow> system \<Rightarrow> (string \<times> system) + (string \<times> string \<times> system)" where
  "prompt_user_for_folder_name_body finalName response s =
     (let tempName = sanitize_folder_name finalName;
          s1 = print_out (sanitized_message tempName) s;
          s2 = print_out ''Do you want to use this name? (y/n): '' s1;
          r = fgets_stdin response 10 s2
      in if tolower (first_char (fst r)) = CHR ''y'' then Inl (tempName, snd r)
         else let s3 = print_out ''Enter a new folder name: '' (snd r);
                  f = fgets_stdin finalName MAX_NAME_LEN s3
              in Inr (cut_line_end (fst f), fst r, snd f))"

partial_function (option) prompt_user_for_folder_name ::
  "string \<Rightarrow> string \<Rightarrow> system \<Rightarrow> (string \<times> system) option" where
  "prompt_user_for_folder_name finalName response s =
     (case prompt_user_for_folder_name_body finalName response s of
        Inl confirmed \<Rightarrow> Some confirmed
      | Inr again \<Rightarrow> prompt_user_for_folder_name (fst again) (fst (snd again)) (snd (snd again)))"

text \<open>
  \<^verbatim>\<open>promptForFolderName\<close> of \<^verbatim>\<open>main.cpp\<close>, in the same way; \<^verbatim>\<open>response\<close> is a fresh
  empty string in every pass through \<^verbatim>\<open>while (true)\<close>.
\<close>

definition promptForFolderName_body ::
  "string \<Rightarrow> system \<Rightarrow> (string \<times> system) + (string \<times> system)" where
  "promptForFolderName_body name s =
     (let sanitized = sanitizeFolderName name;
          s1 = print_out (sanitized_message sanitized) s;
          s2 = print_out ''Do you want to use this name? (y/n): '' s1;
          r = getline_cin [] s2
      in if tolower (first_char (fst r)) = CHR ''y'' then Inl (sanitized, snd r)
         else let s3 = print_out ''Enter a new folder name: '' (snd r)
              in Inr (getline_cin name s3))"

partial_function (option) promptForFolderName_loop ::
  "string \<Rightarrow> system \<Rightarrow> (string \<times> system) option" where
  "promptForFolderName_loop name s =
     (case promptForFolderName_body name s of
        Inl confirmed \<Rightarrow> Some confirmed
      | Inr again \<Rightarrow> promptForFolderName_loop (fst again) (snd again))"

definition promptForFolderName :: "string \<Rightarrow> system \<Rightarrow> (string \<times> system) option" where
  "promptForFolderName original s = promptForFolderName_loop original s"

section \<open>The file system and the shell\<close>

text \<open>
  A string handed over as \<^verbatim>\<open>char *\<close> (an environment value, a command-line argument)
  ends at its first NUL.
\<close>

definition c_str :: "string \<Rightarrow> string" where
  "c_str s = takeWhile (\<lambda>c. c \<noteq> NUL) s"

definition getenv_USERPROFILE :: "system \<Rightarrow> string option" where
  "getenv_USERPROFILE s = map_option c_str (USERPROFILE s)"

text \<open>What \<^verbatim>\<open>snprintf(buf, size, ...)\<close> leaves in the buffer, given the formatted text.\<close>

definition snprintf :: "nat \<Rightarrow> string \<Rightarrow> string" where
  "snprintf size' formatted = take (size' - 1) formatted"

definition strncat :: "string \<Rightarrow> string \<Rightarrow> nat \<Rightarrow> string" where
  "strncat dest src n = dest @ take n src"

definition strncpy :: "string \<Rightarrow> nat \<Rightarrow> string" where
  "strncpy src n = take n (c_str src)"

text \<open>
  \<^verbatim>\<open>_mkdir\<close> creates one directory; it fails when the name is taken or the operating
  system refuses. \<^verbatim>\<open>_chdir\<close> enters an existing directory unless the system refuses.
\<close>

definition mkdir :: "string \<Rightarrow> system \<Rightarrow> bool \<times> system" where
  "mkdir path s =
     (if can_mkdir s path \<and> path \<notin> dirs s \<and> files s path = None
      then (True, s\<lparr>dirs := insert path (dirs s)\<rparr>) else (False, s))"

definition chdir :: "string \<Rightarrow> system \<Rightarrow> bool \<times> system" where
  "chdir path s =
     (if can_chdir s path \<and> path \<in> dirs s then (True, s\<lparr>cwd := path\<rparr>) else (False, s))"

definition directory_exists :: "string \<Rightarrow> system \<Rightarrow> bool" where
  "directory_exists path s = (path \<in> dirs s)"

text \<open>
  \<^verbatim>\<open>ShellExecute\<close> asks for an Explorer window; both programs discard its result.
\<close>

definition ShellExecute :: "string \<Rightarrow> system \<Rightarrow> system" where
  "ShellExecute path s = (if can_open s path then s\<lparr>explorer := explorer s @ [path]\<rparr> else s)"

definition open_in_file_explorer :: "string \<Rightarrow> system \<Rightarrow> system" where
  "open_in_file_explorer path s = ShellExecute path s"

definition open_downloads_folder :: "system \<Rightarrow> system" where
  "open_downloads_folder s =
     (case downloads s of
        Some downloadsPath \<Rightarrow> ShellExecute downloadsPath s
      | None \<Rightarrow> print_err (''Error: Could not locate Downloads folder'' @ [newline]) s)"

definition EXIT_SUCCESS :: nat where
  "EXIT_SUCCESS = 0"

definition EXIT_FAILURE :: nat where
  "EXIT_FAILURE = 1"

section \<open>The configuration file, in C\<close>

text \<open>
  A function of \<^verbatim>\<open>main.c\<close> that returns 1 or 0 and fills a buffer yields \<open>Some\<close> of the
  buffer or \<open>None\<close>.
\<close>

definition get_config_path :: "nat \<Rightarrow> system \<Rightarrow> string option \<times> system" where
  "get_config_path size' s =
     (case getenv_USERPROFILE s of
        None \<Rightarrow>
          (None, print_err (''Error: Could not determine user profile directory.'' @ [newline]) s)
      | Some home \<Rightarrow>
          let configPath = snprintf size'
                (home @ [backslash] @ ''AppData'' @ [backslash] @ ''Local'' @ [backslash]
                   @ ''FolderManager'');
              s1 = snd (mkdir configPath s)
          in (Some (strncat configPath ([backslash] @ ''config.txt'')
                      (size' - length configPath - 1)), s1))"

text \<open>
  \<^verbatim>\<open>read_or_create_config\<close>; \<open>response\<close> is the content of its buffer \<^verbatim>\<open>response\<close>
  before the first read.
\<close>

definition read_or_create_config :: "nat \<Rightarrow> string \<Rightarrow> system \<Rightarrow> string option \<times> system" where
  "read_or_create_config size' response s =
     (case get_config_path MAX_PATH_LEN s of
        (None, s0) \<Rightarrow> (None, s0)
      | (Some configPath, s0) \<Rightarrow>
          (case files s0 configPath of
             Some content \<Rightarrow>
               (case fgets size' content of
                  None \<Rightarrow> (None, s0)
                | Some (got, _) \<Rightarrow> (Some (cut_line_end got), s0))
           | None \<Rightarrow>
               let home = (case getenv_USERPROFILE s0 of Some h \<Rightarrow> h | None \<Rightarrow> []);
                   basePath = snprintf size' (home @ [backslash] @ ''Projects'');
                   s1 = print_out (''Config file not found.'' @ [newline]) s0;
                   s2 = print_out (''Suggested default base directory: '' @ basePath @ [newline]) s1;
                   s3 = print_out ''Use this as your base directory? (y/n): '' s2;
                   r = fgets_stdin response 10 s3;
                   b = (if tolower (first_char (fst r)) \<noteq> CHR ''y'' then
                          let s4 = print_out ''Enter your preferred base directory: '' (snd r);
                              f = fgets_stdin basePath size' s4
                          in (cut_line_end (fst f), snd f)
                        else (basePath, snd r))
               in if \<not> can_write (snd b) configPath then
                    (None, print_err (''Error: Could not write config file.'' @ [newline]) (snd b))
                  else
                    (Some (fst b),
                     print_out (''Saved base directory to config file.'' @ [newline])
                       ((snd b)\<lparr>files := (files (snd b))(configPath \<mapsto> c_str (fst b) @ [newline])\<rparr>))))"

section \<open>The program, in C\<close>

text \<open>
  \<^verbatim>\<open>main\<close> of \<^verbatim>\<open>main.c\<close>: the command line, the contents of the two uninitialised
  \<^verbatim>\<open>response\<close> buffers, and the system; the result is the exit status. \<^verbatim>\<open>perror\<close>
  writes its argument followed by the text of the system error, which is left out.
\<close>

definition main_c :: "string list \<Rightarrow> string \<Rightarrow> string \<Rightarrow> system \<Rightarrow> (nat \<times> system) option" where
  "main_c argv response1 response2 s =
     (if length argv \<noteq> 2 then
        Some (EXIT_FAILURE,
              print_err (''Usage: '' @ c_str (case argv of [] \<Rightarrow> [] | a # _ \<Rightarrow> a)
                           @ '' <folder_name>'' @ [newline]) s)
      else
        case prompt_user_for_folder_name (strncpy (argv ! 1) (MAX_NAME_LEN - 1)) response1 s of
          None \<Rightarrow> None
        | Some (folderName, s1) \<Rightarrow>
            (case read_or_create_config MAX_PATH_LEN response2 s1 of
               (None, s2) \<Rightarrow> Some (EXIT_FAILURE, s2)
             | (Some basePath, s2) \<Rightarrow>
                 let fullPath = snprintf MAX_PATH_LEN (c_str basePath @ [backslash] @ folderName)
                 in if \<not> directory_exists fullPath s2 \<and> \<not> fst (mkdir fullPath s2) then
                      Some (EXIT_FAILURE, print_err ''Error creating directory'' s2)
                    else
                      let s3 = (if \<not> directory_exists fullPath s2
                                then print_out (''Directory created: '' @ fullPath @ [newline])
                                       (snd (mkdir fullPath s2))
                                else print_out (''Directory already exists: '' @ fullPath @ [newline]) s2)
                      in if \<not> fst (chdir fullPath s3) then
                           Some (EXIT_FAILURE, print_err ''Error changing directory'' s3)
                         else
                           Some (EXIT_SUCCESS,
                                 open_downloads_folder
                                   (open_in_file_explorer fullPath (snd (chdir fullPath s3))))))"

section \<open>The configuration file, in C++\<close>

definition CONFIG_DIR :: string where
  "CONFIG_DIR = [backslash] @ ''AppData'' @ [backslash] @ ''Local'' @ [backslash] @ ''FolderManager''"

definition CONFIG_FILE :: string where
  "CONFIG_FILE = ''config.txt''"

definition DEFAULT_SUBDIR :: string where
  "DEFAULT_SUBDIR = ''Projects''"

text \<open>
  A call in \<^verbatim>\<open>main.cpp\<close> returns a value, or ends the process through \<^verbatim>\<open>exit\<close>, or
  throws an exception that nothing catches.
\<close>

datatype 'a outcome = Returns 'a system | Exits nat system | Throws system

text \<open>
  The operations of \<^verbatim>\<open>std::filesystem\<close> that \<^verbatim>\<open>main.cpp\<close> calls, in their throwing
  overloads. \<open>path_append\<close> is \<^verbatim>\<open>operator/\<close> for a right operand without root name and
  root directory, which is all the program passes: the operand is appended, after the
  preferred separator when the left operand has a filename. \<open>quoted\<close> is how a path is
  written to a stream.
\<close>

definition has_filename :: "string \<Rightarrow> bool" where
  "has_filename p =
     (p \<noteq> [] \<and> last p \<noteq> backslash \<and> last p \<noteq> CHR ''/''
      \<and> \<not> (length p = 2 \<and> last p = CHR '':''))"

definition path_append :: "string \<Rightarrow> string \<Rightarrow> string" where
  "path_append p q = (if has_filename p then p @ [backslash] @ q else p @ q)"

definition quoted :: "string \<Rightarrow> string" where
  "quoted p =
     [dquote] @ concat (map (\<lambda>c. if c = dquote \<or> c = backslash then [backslash, c] else [c]) p)
       @ [dquote]"

definition exists_path :: "string \<Rightarrow> system \<Rightarrow> bool" where
  "exists_path p s = (files s p \<noteq> None \<or> p \<in> dirs s)"

definition create_directories :: "string \<Rightarrow> system \<Rightarrow> system option" where
  "create_directories p s =
     (if p \<in> dirs s then Some s
      else if can_mkdir s p \<and> files s p = None then Some (s\<lparr>dirs := insert p (dirs s)\<rparr>)
      else None)"

definition create_directory :: "string \<Rightarrow> system \<Rightarrow> (bool \<times> system) option" where
  "create_directory p s =
     (if p \<in> dirs s then Some (False, s)
      else if can_mkdir s p \<and> files s p = None then Some (True, s\<lparr>dirs := insert p (dirs s)\<rparr>)
      else None)"

definition getUserProfile :: "system \<Rightarrow> string outcome" where
  "getUserProfile s =
     (case getenv_USERPROFILE s of
        None \<Rightarrow> Exits EXIT_FAILURE (print_err (''Error: USERPROFILE not found.'' @ [newline]) s)
      | Some userProfile \<Rightarrow> Returns userProfile s)"

definition getConfigFilePath :: "system \<Rightarrow> string outcome" where
  "getConfigFilePath s =
     (case getUserProfile s of
        Exits code s0 \<Rightarrow> Exits code s0
      | Throws s0 \<Rightarrow> Throws s0
      | Returns home s0 \<Rightarrow>
          let configPath = home @ CONFIG_DIR
          in (case create_directories configPath s0 of
                None \<Rightarrow> Throws s0
              | Some s1 \<Rightarrow> Returns (path_append configPath CONFIG_FILE) s1))"

text \<open>
  Reading through \<^verbatim>\<open>std::ifstream in(configFile)\<close>: a file that cannot be opened gives
  a stream that is not good.
\<close>

definition ifstream :: "string \<Rightarrow> system \<Rightarrow> string \<times> bool" where
  "ifstream p s = (case files s p of Some content \<Rightarrow> (content, True) | None \<Rightarrow> ([], False))"

text \<open>
  Writing through \<^verbatim>\<open>std::ofstream out(configFile)\<close>: nothing is written, and nothing
  reported, when the file cannot be opened.
\<close>

definition ofstream_write :: "string \<Rightarrow> string \<Rightarrow> system \<Rightarrow> system" where
  "ofstream_write p text s = (if can_write s p then s\<lparr>files := (files s)(p \<mapsto> text)\<rparr> else s)"

definition readOrCreateBasePath :: "system \<Rightarrow> string outcome" where
  "readOrCreateBasePath s =
     (case getConfigFilePath s of
        Exits code s0 \<Rightarrow> Exits code s0
      | Throws s0 \<Rightarrow> Throws s0
      | Returns configFile s0 \<Rightarrow>
          if exists_path configFile s0 then
            Returns (fst (getline [] (ifstream configFile s0))) s0
          else
            (case getUserProfile s0 of
               Exits code s1 \<Rightarrow> Exits code s1
             | Throws s1 \<Rightarrow> Throws s1
             | Returns home s1 \<Rightarrow>
                 let suggested = home @ [backslash] @ DEFAULT_SUBDIR;
                     s2 = print_out (''Config file not found.'' @ [newline]) s1;
                     s3 = print_out (''Suggested default base directory: '' @ suggested @ [newline]) s2;
                     s4 = print_out ''Use this as your base directory? (y/n): '' s3;
                     r = getline_cin [] s4;
                     b = (if tolower (first_char (fst r)) = CHR ''y'' then (suggested, snd r)
                          else getline_cin []
                                 (print_out ''Enter your preferred base directory: '' (snd r)));
                     s5 = ofstream_write configFile (fst b @ [newline]) (snd b)
                 in Returns (fst b)
                      (print_out (''Saved base directory to config file.'' @ [newline]) s5)))"

section \<open>The program, in C++\<close>

definition openInExplorer :: "string \<Rightarrow> system \<Rightarrow> system" where
  "openInExplorer path s = ShellExecute (c_str path) s"

definition openDownloadsFolder :: "system \<Rightarrow> system" where
  "openDownloadsFolder s =
     (case downloads s of
        Some downloadsPath \<Rightarrow> ShellExecute downloadsPath s
      | None \<Rightarrow> print_err (''Error: Could not locate Downloads folder.'' @ [newline]) s)"

text \<open>
  \<^verbatim>\<open>main\<close> of \<^verbatim>\<open>main.cpp\<close>; \<open>None\<close> is a run whose confirmation loop never returns.
\<close>

definition main_cpp :: "string list \<Rightarrow> system \<Rightarrow> nat outcome option" where
  "main_cpp argv s =
     (if length argv \<noteq> 2 then
        Some (Returns EXIT_FAILURE
                (print_err (''Usage: '' @ c_str (case argv of [] \<Rightarrow> [] | a # _ \<Rightarrow> a)
                              @ '' <folder_name>'' @ [newline]) s))
      else
        case promptForFolderName (c_str (argv ! 1)) s of
          None \<Rightarrow> None
        | Some (folderName, s1) \<Rightarrow>
            (case readOrCreateBasePath s1 of
               Exits code s2 \<Rightarrow> Some (Exits code s2)
             | Throws s2 \<Rightarrow> Some (Throws s2)
             | Returns basePath s2 \<Rightarrow>
                 let fullPath = path_append basePath folderName
                 in if \<not> exists_path fullPath s2 \<and> create_directory fullPath s2 = None then
                      Some (Throws s2)
                    else if \<not> exists_path fullPath s2
                            \<and> map_option fst (create_directory fullPath s2) = Some False then
                      Some (Returns EXIT_FAILURE
                              (print_err (''Error creating directory: '' @ quoted fullPath @ [newline]) s2))
                    else
                      let s3 = (if \<not> exists_path fullPath s2
                                then print_out (''Directory created: '' @ quoted fullPath @ [newline])
                                       (case create_directory fullPath s2 of
                                          Some (_, t) \<Rightarrow> t | None \<Rightarrow> s2)
                                else print_out
                                       (''Directory already exists: '' @ quoted fullPath @ [newline]) s2)
                      in if \<not> fst (chdir (c_str fullPath) s3) then
                           Some (Returns EXIT_FAILURE (print_err ''Error changing directory'' s3))
                         else
                           Some (Returns EXIT_SUCCESS
                                   (openDownloadsFolder
                                      (openInExplorer fullPath (snd (chdir (c_str fullPath) s3)))))))"

section \<open>Observing an outcome\<close>

text \<open>The value a call of \<^verbatim>\<open>main.cpp\<close> returned, if it returned, and the system it left.\<close>

primrec returned :: "'a outcome \<Rightarrow> 'a option" where
  "returned (Returns v s) = Some v"
| "returned (Exits code s) = None"
| "returned (Throws s) = None"

primrec after :: "'a outcome \<Rightarrow> system" where
  "after (Returns v s) = s"
| "after (Exits code s) = s"
| "after (Throws s) = s"

section \<open>Other answers of the handoffs\<close>

text \<open>
  The same machine with other answers to the two handoffs: whether the Downloads folder
  is found, and which Explorer windows can be opened. And the exit status of the process
  that an outcome of \<^verbatim>\<open>main\<close> of \<^verbatim>\<open>main.cpp\<close> stands for (none when the process is
  terminated for an uncaught exception).
\<close>

definition with_handoffs :: "string option \<Rightarrow> (string \<Rightarrow> bool) \<Rightarrow> system \<Rightarrow> system" where
  "with_handoffs d opens s = s\<lparr>downloads := d, can_open := opens\<rparr>"

primrec exit_status :: "nat outcome \<Rightarrow> nat option" where
  "exit_status (Returns code s) = Some code"
| "exit_status (Exits code s) = Some code"
| "exit_status (Throws s) = None"

section \<open>Where the configuration file is\<close>

text \<open>
  Both programs build the same name for the configuration file from the home directory
  (as long as it fits the buffer of \<^verbatim>\<open>main.c\<close>).
\<close>

definition config_file :: "string \<Rightarrow> string" where
  "config_file home = home @ CONFIG_DIR @ [backslash] @ CONFIG_FILE"

section \<open>Rejected names\<close>

text \<open>
  What is typed when names are rejected: each round is a response that is no yes,
  followed by a new name, each on a line of its own. The bounds are those of the buffers
  of \<^verbatim>\<open>main.c\<close>: a response of at most 8 characters and a name of at most 254, so that
  each line is read by one call of \<^verbatim>\<open>fgets\<close>.
\<close>

fun typed :: "(string \<times> string) list \<Rightarrow> string \<Rightarrow> string" where
  "typed [] rest = rest"
| "typed ((response, name) # rounds) rest =
     response @ [newline] @ name @ [newline] @ typed rounds rest"

definition rejection :: "string \<Rightarrow> bool" where
  "rejection response =
     (list_all (\<lambda>c. c \<noteq> newline) response \<and> length response < 9
      \<and> tolower (first_char response) \<noteq> CHR ''y'')"

definition typed_name :: "string \<Rightarrow> bool" where
  "typed_name name =
     (list_all (\<lambda>c. c \<noteq> newline \<and> c \<noteq> carriage_return \<and> c \<noteq> NUL) name \<and> length name < 255)"

section \<open>Clean names\<close>

text \<open>
  A name is clean when each of its characters is kept by the sanitizers and written as
  itself.
\<close>

definition clean :: "string \<Rightarrow> bool" where
  "clean xs = (\<forall>c\<in>set xs. kept c \<and> written c = c)"

section \<open>A sample machine\<close>

text \<open>
  A machine on which nothing has been typed or written yet and no operation is refused;
  the home directory is \<^verbatim>\<open>/home/u\<close>.
\<close>

definition fresh_system :: system where
  "fresh_system =
     \<lparr>USERPROFILE = Some ''/home/u'', files = Map.empty, dirs = {}, cwd = [],
      stdin = [], stdin_good = True, stdout = [], stderr = [], explorer = [],
      can_write = (\<lambda>_. True), can_mkdir = (\<lambda>_. True), can_chdir = (\<lambda>_. True),
      can_open = (\<lambda>_. True), downloads = Some ''Downloads''\<rparr>"

section \<open>A sample run\<close>

text \<open>
  The program is called with the folder name \<^verbatim>\<open>x\<close>; the user confirms the name and
  accepts the default base directory, so the target directory is \<open>sample_path\<close>. On
  \<open>silent_system\<close> no Explorer window can be opened; on \<open>lost_downloads_system\<close> the
  Downloads folder cannot be located.
\<close>

definition sample_argv :: "string list" where
  "sample_argv = [''mkproj'', ''x'']"

definition sample_path :: string where
  "sample_path = ''/home/u'' @ [backslash] @ ''Projects'' @ [backslash] @ ''x''"

definition silent_system :: system where
  "silent_system =
     fresh_system\<lparr>stdin := ''y'' @ [newline] @ ''y'' @ [newline], can_open := (\<lambda>_. False)\<rparr>"

definition lost_downloads_system :: system where
  "lost_downloads_system =
     fresh_system\<lparr>stdin := ''y'' @ [newline] @ ''y'' @ [newline], downloads := None\<rparr>"

section \<open>Properties of the sanitizers\<close>

lemma sanitizeFolderName_loop_eq:
  "sanitizeFolderName_loop s out = out @ map written (filter kept s)"
  by (induction s arbitrary: out) (auto simp: kept_def written_def)

lemma sanitizeFolderName_eq:
  "sanitizeFolderName s = map written (filter kept s)"
  by (simp add: sanitizeFolderName_def sanitizeFolderName_loop_eq)

lemma sanitize_folder_name_loop_eq:
  "length out \<le> MAX_NAME_LEN - 1 \<Longrightarrow>
   sanitize_folder_name_loop s out =
     take (MAX_NAME_LEN - 1) (out @ map written (filter kept (c_str s)))"
proof (induction s arbitrary: out)
  case Nil
  then show ?case by (simp add: c_str_def)
next
  case (Cons c cs)
  show ?case
  proof (cases "c \<noteq> NUL \<and> length out < MAX_NAME_LEN - 1")
    case True
    then have len: "length (out @ [x]) \<le> MAX_NAME_LEN - 1" for x by simp
    from True Cons.IH [OF Cons.prems] Cons.IH [OF len] show ?thesis
      by (simp add: kept_def written_def c_str_def)
  next
    case False
    with Cons.prems show ?thesis by (auto simp: c_str_def)
  qed
qed

lemma sanitize_folder_name_eq:
  "sanitize_folder_name s = take (MAX_NAME_LEN - 1) (map written (filter kept (c_str s)))"
  by (simp add: sanitize_folder_name_def sanitize_folder_name_loop_eq)

lemma underscore_kept: "kept (CHR ''_'')" "\<not> isspace (CHR ''_'')"
  by (simp_all add: kept_def invalid_def iscntrl_def isspace_def)

lemma NUL_not_kept: "\<not> kept NUL"
  by (simp add: kept_def iscntrl_def NUL_def)

lemma kept_written: "kept c \<Longrightarrow> kept (written c)"
  by (simp add: written_def underscore_kept)

lemma written_written: "written (written c) = written c"
  by (simp add: written_def underscore_kept)

lemma kept_space: "kept c \<Longrightarrow> isspace c \<longleftrightarrow> c = CHR '' ''"
  by (auto simp: kept_def iscntrl_def isspace_def)

lemma clean_map_written: "clean (map written (filter kept s))"
  by (auto simp: clean_def kept_written written_written)

lemma clean_take: "clean xs \<Longrightarrow> clean (take n xs)"
  by (auto simp: clean_def dest: in_set_takeD)

lemma clean_c_str: "clean xs \<Longrightarrow> c_str xs = xs"
  unfolding clean_def c_str_def using NUL_not_kept
  by (auto simp: takeWhile_eq_all_conv)

lemma clean_fix: "clean xs \<Longrightarrow> map written (filter kept xs) = xs"
  by (induction xs) (auto simp: clean_def)

lemma clean_sanitizeFolderName: "clean (sanitizeFolderName s)"
  by (simp add: sanitizeFolderName_eq clean_map_written)

lemma clean_sanitize_folder_name: "clean (sanitize_folder_name s)"
  by (simp add: sanitize_folder_name_eq clean_map_written clean_take)

lemma length_sanitize_folder_name: "length (sanitize_folder_name s) \<le> MAX_NAME_LEN - 1"
  by (simp add: sanitize_folder_name_eq)

lemma sanitizeFolderName_fix: "clean xs \<Longrightarrow> sanitizeFolderName xs = xs"
  by (simp add: sanitizeFolderName_eq clean_fix)

lemma sanitize_folder_name_fix:
  "clean xs \<Longrightarrow> length xs \<le> MAX_NAME_LEN - 1 \<Longrightarrow> sanitize_folder_name xs = xs"
  by (simp add: sanitize_folder_name_eq clean_fix clean_c_str)

lemma clean_chars:
  "clean xs \<Longrightarrow> c \<in> set xs \<Longrightarrow> c \<notin> set invalid \<and> \<not> iscntrl c \<and> \<not> isspace c"
  using underscore_kept(2) by (auto simp: clean_def kept_def written_def split: if_splits)

section \<open>What the confirmation loop returns\<close>

lemma prompt_user_for_folder_name_result:
  assumes "prompt_user_for_folder_name finalName response s = Some y"
  shows "\<exists>raw. fst y = sanitize_folder_name raw"
proof (rule prompt_user_for_folder_name.raw_induct
    [where P = "\<lambda>_ _ _ y. \<exists>raw. fst y = sanitize_folder_name raw", OF _ assms], goal_cases)
  case (1 f finalName response s y)
  then show ?case
    by (auto simp: prompt_user_for_folder_name_body_def Let_def split: sum.splits if_splits)
qed

lemma promptForFolderName_loop_result:
  assumes "promptForFolderName_loop name s = Some y"
  shows "\<exists>raw. fst y = sanitizeFolderName raw"
proof (rule promptForFolderName_loop.raw_induct
    [where P = "\<lambda>_ _ y. \<exists>raw. fst y = sanitizeFolderName raw", OF _ assms], goal_cases)
  case (1 f name s y)
  then show ?case
    by (auto simp: promptForFolderName_body_def Let_def split: sum.splits if_splits)
qed

lemmas char_defs = NUL_def newline_def carriage_return_def dquote_def backslash_def
  iscntrl_def isspace_def tolower_def invalid_def

lemma written_kept_eq:
  "map written (filter kept s) =
   map (\<lambda>c. if c = CHR '' '' then CHR ''_'' else c) (filter (\<lambda>c. c \<notin> set invalid \<and> \<not> iscntrl c) s)"
  by (induction s) (auto simp: written_def kept_space, auto simp: kept_def)

section \<open>A sample run of the confirmation loop\<close>

lemma run_c:
  "map_option fst (prompt_user_for_folder_name ''a<b'' []
     (fresh_system\<lparr>stdin := ''n'' @ [newline] @ ''my dir'' @ [newline] @ ''y'' @ [newline]\<rparr>))
   = Some ''my_dir''"
  by (simp add: prompt_user_for_folder_name.simps prompt_user_for_folder_name_body_def
      fresh_system_def fgets_stdin_def fgets_def print_out_def first_char_def cut_line_end_def
      strcspn_def sanitize_folder_name_def MAX_NAME_LEN_def Let_def char_defs)

section \<open>Claims about the sanitizers\<close>

text \<open>
  Claim C1, as stated, asks that every whitespace character be replaced by an underscore.
  The tab is a whitespace character, but also a control character, and both sanitizers
  test for control characters first: it is dropped.
\<close>

theorem sanitize_output_counterexample:
  "isspace (CHR 0x09)
   \<and> sanitize_folder_name [CHR ''a'', CHR 0x09, CHR ''b''] = ''ab''
   \<and> sanitizeFolderName [CHR ''a'', CHR 0x09, CHR ''b''] = ''ab''"
  by (simp add: sanitize_folder_name_def sanitizeFolderName_def MAX_NAME_LEN_def char_defs)

text \<open>
  Claim C1, amended: the output of both sanitizers holds no reserved and no control
  character. It consists of the characters of the input that are neither reserved nor
  control characters, in order, with each space written as one underscore and every other
  character unchanged; the whitespace characters other than the space are control
  characters and are dropped. The C function reads its input up to the first NUL and keeps
  the first 255 characters of that output.
\<close>

theorem sanitize_output:
  "sanitizeFolderName s =
     map (\<lambda>c. if c = CHR '' '' then CHR ''_'' else c)
       (filter (\<lambda>c. c \<notin> set invalid \<and> \<not> iscntrl c) s)
   \<and> sanitize_folder_name s =
     take 255 (map (\<lambda>c. if c = CHR '' '' then CHR ''_'' else c)
       (filter (\<lambda>c. c \<notin> set invalid \<and> \<not> iscntrl c) (c_str s)))
   \<and> (\<forall>c \<in> set (sanitizeFolderName s) \<union> set (sanitize_folder_name s).
         c \<notin> set invalid \<and> \<not> iscntrl c)"
proof (intro conjI ballI)
  show "sanitizeFolderName s =
     map (\<lambda>c. if c = CHR '' '' then CHR ''_'' else c)
       (filter (\<lambda>c. c \<notin> set invalid \<and> \<not> iscntrl c) s)"
    by (simp add: sanitizeFolderName_eq written_kept_eq)
  show "sanitize_folder_name s =
     take 255 (map (\<lambda>c. if c = CHR '' '' then CHR ''_'' else c)
       (filter (\<lambda>c. c \<notin> set invalid \<and> \<not> iscntrl c) (c_str s)))"
    by (simp add: sanitize_folder_name_eq written_kept_eq MAX_NAME_LEN_def)
next
  fix c assume "c \<in> set (sanitizeFolderName s) \<union> set (sanitize_folder_name s)"
  then show "c \<notin> set invalid" "\<not> iscntrl c"
    using clean_chars [OF clean_sanitizeFolderName] clean_chars [OF clean_sanitize_folder_name]
    by blast+
qed

theorem sanitize_output_witness:
  "sanitizeFolderName ''a<b c'' = ''ab_c'' \<and> sanitize_folder_name ''a<b c'' = ''ab_c''
   \<and> list_all (\<lambda>c. c \<notin> set invalid \<and> \<not> iscntrl c) (sanitizeFolderName ''a<b c'')
   \<and> list_all (\<lambda>c. c \<notin> set invalid \<and> \<not> iscntrl c) (sanitize_folder_name ''a<b c'')"
  using sanitize_output [of "''a<b c''"]
  by (simp add: c_str_def char_defs)

text \<open>
  Claim C2: both sanitizers are defined on every string (they are total functions, by
  structural recursion on the input) and idempotent.
\<close>

theorem sanitize_idempotent:
  "sanitizeFolderName (sanitizeFolderName s) = sanitizeFolderName s
   \<and> sanitize_folder_name (sanitize_folder_name s) = sanitize_folder_name s"
  using sanitizeFolderName_fix [OF clean_sanitizeFolderName]
    sanitize_folder_name_fix [OF clean_sanitize_folder_name length_sanitize_folder_name]
  by blast

theorem sanitize_idempotent_witness:
  "sanitizeFolderName (sanitizeFolderName ''my folder'') = ''my_folder''
   \<and> sanitize_folder_name (sanitize_folder_name ''my folder'') = ''my_folder''"
proof -
  have "sanitizeFolderName ''my folder'' = ''my_folder''"
    "sanitize_folder_name ''my folder'' = ''my_folder''"
    by (simp_all add: sanitize_folder_name_def sanitizeFolderName_def MAX_NAME_LEN_def char_defs)
  with sanitize_idempotent [of "''my folder''"] show ?thesis by simp
qed


lemma sanitizeFolderName_replicate:
  "kept c \<Longrightarrow> \<not> isspace c \<Longrightarrow> sanitizeFolderName (replicate n c) = replicate n c"
  by (simp add: sanitizeFolderName_eq written_def)

lemma kept_letter: "kept (CHR ''a'')" "\<not> isspace (CHR ''a'')" "kept (CHR ''x'')" "\<not> isspace (CHR ''x'')"
  by (simp_all add: kept_def char_defs)

text \<open>
  Claim C3, as stated, fails for \<^verbatim>\<open>sanitizeFolderName\<close> of \<^verbatim>\<open>main.cpp\<close>, which has no
  length limit: 256 letters come out as 256 letters.
\<close>

theorem name_length_limit_counterexample:
  "\<not> length (sanitizeFolderName (replicate 256 (CHR ''a''))) \<le> 255"
  by (simp add: sanitizeFolderName_replicate kept_letter)

lemma length_fgets: "fgets n stream = Some (got, rest) \<Longrightarrow> length got \<le> n - 1"
  by (auto simp: fgets_def Let_def split: if_splits)

text \<open>
  Claim C3, amended: the C function \<^verbatim>\<open>sanitize_folder_name\<close> cuts its output after 255
  characters, for every input. The limit covers the first name and every name typed
  later alike: the command-line argument is copied up to 255 characters, a typed name is
  read up to 255 characters, and whatever name the C confirmation loop returns has at
  most 255 characters. The C++ function \<^verbatim>\<open>sanitizeFolderName\<close> applies no limit: its
  output has as many characters as the input has kept characters.
\<close>

theorem name_length_limit:
  "length (sanitize_folder_name s) = min 255 (length (filter kept (c_str s)))
   \<and> length (strncpy arg (MAX_NAME_LEN - 1)) \<le> 255
   \<and> (fgets MAX_NAME_LEN stream = Some (got, rest) \<longrightarrow> length got \<le> 255)
   \<and> (prompt_user_for_folder_name finalName response sys = Some (name, sys') \<longrightarrow> length name \<le> 255)
   \<and> length (sanitizeFolderName s) = length (filter kept s)"
proof (intro conjI impI)
  show "length (sanitize_folder_name s) = min 255 (length (filter kept (c_str s)))"
    by (simp add: sanitize_folder_name_eq MAX_NAME_LEN_def min.commute)
  show "length (strncpy arg (MAX_NAME_LEN - 1)) \<le> 255"
    by (simp add: strncpy_def MAX_NAME_LEN_def)
  show "length got \<le> 255" if "fgets MAX_NAME_LEN stream = Some (got, rest)"
    using length_fgets [OF that] by (simp add: MAX_NAME_LEN_def)
  show "length name \<le> 255"
    if "prompt_user_for_folder_name finalName response sys = Some (name, sys')"
    using prompt_user_for_folder_name_result [OF that] length_sanitize_folder_name
    by (auto simp: MAX_NAME_LEN_def)
  show "length (sanitizeFolderName s) = length (filter kept s)"
    by (simp add: sanitizeFolderName_eq)
qed

theorem name_length_limit_witness:
  "fgets MAX_NAME_LEN (''my dir'' @ [newline] @ ''y'' @ [newline]) = Some (''my dir'' @ [newline], ''y'' @ [newline])
   \<and> length (''my dir'' @ [newline]) \<le> 255
   \<and> map_option fst (prompt_user_for_folder_name ''a<b'' []
        (fresh_system\<lparr>stdin := ''n'' @ [newline] @ ''my dir'' @ [newline] @ ''y'' @ [newline]\<rparr>))
      = Some ''my_dir''
   \<and> length ''my_dir'' \<le> 255"
proof -
  have f: "fgets MAX_NAME_LEN (''my dir'' @ [newline] @ ''y'' @ [newline])
      = Some (''my dir'' @ [newline], ''y'' @ [newline])"
    by (simp add: fgets_def MAX_NAME_LEN_def Let_def newline_def)
  obtain sys' where r: "prompt_user_for_folder_name ''a<b'' []
        (fresh_system\<lparr>stdin := ''n'' @ [newline] @ ''my dir'' @ [newline] @ ''y'' @ [newline]\<rparr>)
      = Some (''my_dir'', sys')"
    using run_c by (auto simp: map_option_case split: option.splits)
  from name_length_limit [of "[]" "[]" "''my dir'' @ [newline] @ ''y'' @ [newline]"
      "''my dir'' @ [newline]" "''y'' @ [newline]" "''a<b''" "[]" _ "''my_dir''" sys'] f r
  show ?thesis by simp
qed

text \<open>
  Claim C6, as stated, fails on a name of 300 letters, which the C function cuts to 255
  and the C++ function returns whole.
\<close>

theorem sanitizers_agree_counterexample:
  "sanitize_folder_name (replicate 300 (CHR ''x'')) \<noteq> sanitizeFolderName (replicate 300 (CHR ''x''))"
proof
  assume "sanitize_folder_name (replicate 300 (CHR ''x'')) = sanitizeFolderName (replicate 300 (CHR ''x''))"
  then have "length (sanitize_folder_name (replicate 300 (CHR ''x''))) = 300"
    by (simp add: sanitizeFolderName_replicate kept_letter)
  with length_sanitize_folder_name [of "replicate 300 (CHR ''x'')"] show False
    by (simp add: MAX_NAME_LEN_def)
qed

text \<open>
  Claim C6, amended: the C function returns the first 255 characters of what the C++
  function returns on the input up to its first NUL; so the two agree on every input
  without NUL whose sanitized form has at most 255 characters.
\<close>

theorem sanitizers_agree:
  "sanitize_folder_name s = take 255 (sanitizeFolderName (c_str s))
   \<and> (NUL \<notin> set s \<and> length (sanitizeFolderName s) \<le> 255 \<longrightarrow>
        sanitize_folder_name s = sanitizeFolderName s)"
proof (intro conjI impI)
  show eq: "sanitize_folder_name s = take 255 (sanitizeFolderName (c_str s))"
    by (simp add: sanitize_folder_name_eq sanitizeFolderName_eq MAX_NAME_LEN_def)
  assume "NUL \<notin> set s \<and> length (sanitizeFolderName s) \<le> 255"
  moreover from this have "c_str s = s"
    by (auto simp: c_str_def takeWhile_eq_all_conv)
  ultimately show "sanitize_folder_name s = sanitizeFolderName s"
    using eq by simp
qed

theorem sanitizers_agree_witness:
  "NUL \<notin> set ''a<b c'' \<and> length (sanitizeFolderName ''a<b c'') \<le> 255
   \<and> sanitize_folder_name ''a<b c'' = sanitizeFolderName ''a<b c''"
proof -
  have "NUL \<notin> set ''a<b c''" by (simp add: NUL_def)
  moreover have "length (sanitizeFolderName ''a<b c'') \<le> 255"
    by (simp add: sanitizeFolderName_def char_defs)
  ultimately show ?thesis using sanitizers_agree [of "''a<b c''"] by blast
qed

section \<open>An immediate yes\<close>

lemma of_char_Y: "(of_char c :: nat) = 89 \<longleftrightarrow> c = CHR ''Y''"
proof -
  have "(of_char c :: nat) = of_char (CHR ''Y'') \<longleftrightarrow> c = CHR ''Y''"
    by (rule of_char_eq_iff)
  then show ?thesis by simp
qed

lemma tolower_y: "tolower c = CHR ''y'' \<longleftrightarrow> c = CHR ''y'' \<or> c = CHR ''Y''"
proof (cases "65 \<le> (of_char c :: nat) \<and> (of_char c :: nat) \<le> 90")
  case True
  then have "(of_char c :: nat) + 32 < 2 ^ 8" by simp
  then have "take_bit 8 ((of_char c :: nat) + 32) = of_char c + 32"
    by (simp only: take_bit_nat_eq_self)
  then have "char_of ((of_char c :: nat) + 32) = CHR ''y'' \<longleftrightarrow> (of_char c :: nat) = 89"
    by (simp add: char_of_eq_iff)
  moreover from True have "c \<noteq> CHR ''y''" by auto
  ultimately show ?thesis using True by (simp add: tolower_def of_char_Y)
next
  case False
  then have "c \<noteq> CHR ''Y''" by auto
  with False show ?thesis by (auto simp: tolower_def)
qed

lemma affirmative_iff:
  "tolower (first_char r) = CHR ''y'' \<longleftrightarrow> (\<exists>t. r = CHR ''y'' # t \<or> r = CHR ''Y'' # t)"
  by (cases r) (auto simp: first_char_def tolower_y NUL_def)

lemma fgets_Cons:
  "1 < n \<Longrightarrow> \<exists>got rest. fgets n (c # cs) = Some (c # got, rest)"
  by (cases n; cases "n - 1") (auto simp: fgets_def Let_def)

lemma first_char_fgets_stdin:
  "stdin s = c # cs \<Longrightarrow> 1 < n \<Longrightarrow> first_char (fst (fgets_stdin buf n s)) = c"
  using fgets_Cons [of n c cs] by (auto simp: fgets_stdin_def first_char_def)

lemma prompt_user_for_folder_name_body_yes:
  "stdin s = c # cs \<Longrightarrow>
   isl (prompt_user_for_folder_name_body finalName response s) \<longleftrightarrow> c = CHR ''y'' \<or> c = CHR ''Y''"
  by (simp add: prompt_user_for_folder_name_body_def Let_def print_out_def
      first_char_fgets_stdin tolower_y)

lemma first_char_getline_cin:
  "tolower (first_char (fst (getline_cin [] s))) = CHR ''y'' \<longleftrightarrow>
   stdin_good s \<and> (\<exists>cs. stdin s = CHR ''y'' # cs \<or> stdin s = CHR ''Y'' # cs)"
  by (cases "stdin s")
    (auto simp: getline_cin_def getline_def Let_def affirmative_iff newline_def split: if_splits)

lemma promptForFolderName_body_yes:
  "isl (promptForFolderName_body name s) \<longleftrightarrow>
   stdin_good s \<and> (\<exists>cs. stdin s = CHR ''y'' # cs \<or> stdin s = CHR ''Y'' # cs)"
  using first_char_getline_cin [of "print_out ''Do you want to use this name? (y/n): ''
      (print_out (sanitized_message (sanitizeFolderName name)) s)"]
  by (simp add: promptForFolderName_body_def Let_def print_out_def)

lemma fgets_line:
  "1 < n \<Longrightarrow> length line < n - 1 \<Longrightarrow> newline \<notin> set line \<Longrightarrow>
   fgets n (line @ newline # rest) = Some (line @ [newline], rest)"
proof -
  assume "1 < n" and "length line < n - 1" and nl: "newline \<notin> set line"
  then obtain k where k: "n - 1 = Suc (length line + k)"
    by (metis less_iff_Suc_add)
  have tw: "takeWhile (\<lambda>c. c \<noteq> newline) (line @ newline # xs) = line" for xs
    using nl by (induction line) auto
  have w: "take (n - 1) (line @ newline # rest) = line @ newline # take k rest"
    unfolding k by simp
  show ?thesis
    unfolding fgets_def Let_def w by (simp add: tw)
qed

lemma prompt_user_for_folder_name_y:
  assumes inp: "stdin s = CHR ''y'' # newline # rest"
  shows "prompt_user_for_folder_name raw response s =
       Some (sanitize_folder_name raw,
             s\<lparr>stdin := rest,
               stdout := stdout s @ [sanitized_message (sanitize_folder_name raw),
                                     ''Do you want to use this name? (y/n): '']\<rparr>)"
proof -
  have "fgets 10 (CHR ''y'' # newline # rest) = Some ([CHR ''y'', newline], rest)"
    using fgets_line [of 10 "[CHR ''y'']" rest] by (simp add: newline_def)
  with inp show ?thesis
    by (subst prompt_user_for_folder_name.simps)
      (simp add: prompt_user_for_folder_name_body_def Let_def print_out_def fgets_stdin_def
        first_char_def tolower_y)
qed

lemma promptForFolderName_y:
  assumes "stdin s = CHR ''y'' # newline # rest" "stdin_good s"
  shows "promptForFolderName raw s =
            Some (sanitizeFolderName raw,
                  s\<lparr>stdin := rest, stdin_good := True,
                    stdout := stdout s @ [sanitized_message (sanitizeFolderName raw),
                                          ''Do you want to use this name? (y/n): '']\<rparr>)"
  using assms unfolding promptForFolderName_def
  by (subst promptForFolderName_loop.simps)
    (simp add: promptForFolderName_body_def Let_def print_out_def getline_cin_def getline_def
      first_char_def tolower_y newline_def)

text \<open>
  Claim C7: when the first line typed is \<^verbatim>\<open>y\<close>, the confirmation loop returns the
  sanitized form of the raw name, whatever that name is. It has written one line, the
  words \<^verbatim>\<open>Sanitized folder name:\<close> and the sanitized name in double quotes, followed by
  the question, and nothing else; and it has consumed exactly that one line of input.
\<close>

theorem immediate_confirmation:
  "stdin s = CHR ''y'' # CHR 0x0A # rest \<longrightarrow>
     prompt_user_for_folder_name raw response s =
       Some (sanitize_folder_name raw,
             s\<lparr>stdin := rest,
               stdout := stdout s
                 @ [''Sanitized folder name: '' @ [CHR 0x22] @ sanitize_folder_name raw
                      @ [CHR 0x22, CHR 0x0A],
                    ''Do you want to use this name? (y/n): '']\<rparr>)
     \<and> (stdin_good s \<longrightarrow>
          promptForFolderName raw s =
            Some (sanitizeFolderName raw,
                  s\<lparr>stdin := rest, stdin_good := True,
                    stdout := stdout s
                      @ [''Sanitized folder name: '' @ [CHR 0x22] @ sanitizeFolderName raw
                           @ [CHR 0x22, CHR 0x0A],
                         ''Do you want to use this name? (y/n): '']\<rparr>))"
  using prompt_user_for_folder_name_y [of s rest raw response] promptForFolderName_y [of s rest raw]
  unfolding sanitized_message_def dquote_def newline_def
  by blast

theorem immediate_confirmation_witness:
  "prompt_user_for_folder_name ''a<b c'' []
     (fresh_system\<lparr>stdin := [CHR ''y'', CHR 0x0A]\<rparr>) =
     Some (''ab_c'',
           fresh_system\<lparr>stdin := [],
             stdout := [''Sanitized folder name: '' @ [CHR 0x22] @ ''ab_c'' @ [CHR 0x22, CHR 0x0A],
                        ''Do you want to use this name? (y/n): '']\<rparr>)
   \<and> promptForFolderName ''a<b c'' (fresh_system\<lparr>stdin := [CHR ''y'', CHR 0x0A]\<rparr>) =
     Some (''ab_c'',
           fresh_system\<lparr>stdin := [],
             stdout := [''Sanitized folder name: '' @ [CHR 0x22] @ ''ab_c'' @ [CHR 0x22, CHR 0x0A],
                        ''Do you want to use this name? (y/n): '']\<rparr>)"
proof -
  have "sanitizeFolderName ''a<b c'' = ''ab_c''" "sanitize_folder_name ''a<b c'' = ''ab_c''"
    by (simp_all add: sanitize_folder_name_def sanitizeFolderName_def MAX_NAME_LEN_def char_defs)
  with immediate_confirmation [of "fresh_system\<lparr>stdin := [CHR ''y'', CHR 0x0A]\<rparr>" "[]" "''a<b c''" "[]"]
  show ?thesis by (simp add: fresh_system_def)
qed

section \<open>The yes/no prompts\<close>

lemma print_out_fields:
  "stdout (print_out m s) = stdout s @ [m]" "stdin (print_out m s) = stdin s"
  "stdin_good (print_out m s) = stdin_good s" "stderr (print_out m s) = stderr s"
  "files (print_out m s) = files s" "dirs (print_out m s) = dirs s"
  "can_write (print_out m s) = can_write s" "can_mkdir (print_out m s) = can_mkdir s"
  "can_chdir (print_out m s) = can_chdir s" "can_open (print_out m s) = can_open s"
  "downloads (print_out m s) = downloads s" "USERPROFILE (print_out m s) = USERPROFILE s"
  by (simp_all add: print_out_def)

lemma print_err_fields:
  "stderr (print_err m s) = stderr s @ [m]" "stdout (print_err m s) = stdout s"
  by (simp_all add: print_err_def)

lemma fgets_stdin_fields:
  "stdout (snd (fgets_stdin b k s)) = stdout s" "stderr (snd (fgets_stdin b k s)) = stderr s"
  "files (snd (fgets_stdin b k s)) = files s" "dirs (snd (fgets_stdin b k s)) = dirs s"
  "can_write (snd (fgets_stdin b k s)) = can_write s"
  "can_mkdir (snd (fgets_stdin b k s)) = can_mkdir s"
  "can_chdir (snd (fgets_stdin b k s)) = can_chdir s"
  "can_open (snd (fgets_stdin b k s)) = can_open s"
  "downloads (snd (fgets_stdin b k s)) = downloads s"
  "USERPROFILE (snd (fgets_stdin b k s)) = USERPROFILE s"
  by (simp_all add: fgets_stdin_def split: option.splits prod.splits)

lemma getline_cin_fields:
  "stdout (snd (getline_cin b s)) = stdout s" "stderr (snd (getline_cin b s)) = stderr s"
  "files (snd (getline_cin b s)) = files s" "dirs (snd (getline_cin b s)) = dirs s"
  "can_write (snd (getline_cin b s)) = can_write s"
  "can_mkdir (snd (getline_cin b s)) = can_mkdir s"
  "can_chdir (snd (getline_cin b s)) = can_chdir s"
  "can_open (snd (getline_cin b s)) = can_open s"
  "downloads (snd (getline_cin b s)) = downloads s"
  "USERPROFILE (snd (getline_cin b s)) = USERPROFILE s"
  by (simp_all add: getline_cin_def Let_def split: prod.splits)

lemma first_char_fgets_stdin_eq:
  "1 < n \<Longrightarrow>
   first_char (fst (fgets_stdin buf n s)) = (case stdin s of [] \<Rightarrow> first_char buf | c # _ \<Rightarrow> c)"
  using first_char_fgets_stdin [of s _ _ n buf]
  by (cases "stdin s") (simp_all add: fgets_stdin_def fgets_def)

lemma get_config_path_Some:
  assumes "get_config_path n s = (Some cfg, s0)"
  shows "files s0 = files s" "stdin s0 = stdin s" "stdout s0 = stdout s" "stderr s0 = stderr s"
    "can_write s0 = can_write s" "USERPROFILE s0 = USERPROFILE s" "USERPROFILE s \<noteq> None"
  using assms
  by (auto simp: get_config_path_def getenv_USERPROFILE_def mkdir_def Let_def print_err_def
      split: option.splits if_splits)

lemma read_or_create_config_asks:
  assumes cfg: "get_config_path MAX_PATH_LEN s = (Some cfg, s0)"
    and absent: "files s cfg = None"
    and inp: "stdin s = c # cs"
    and fresh: "''Enter your preferred base directory: '' \<notin> set (stdout s)"
  shows "''Enter your preferred base directory: '' \<in> set (stdout (snd (read_or_create_config n response s)))
         \<longleftrightarrow> \<not> (c = CHR ''y'' \<or> c = CHR ''Y'')"
proof -
  note facts = get_config_path_Some [OF cfg]
  show ?thesis
    using fresh absent
    by (simp add: read_or_create_config_def cfg facts Let_def tolower_y inp
        first_char_fgets_stdin_eq print_out_fields print_err_fields fgets_stdin_fields)
qed

lemma getConfigFilePath_Returns:
  assumes "getConfigFilePath s = Returns cfg s0"
  shows "files s0 = files s" "stdin s0 = stdin s" "stdout s0 = stdout s" "stderr s0 = stderr s"
    "stdin_good s0 = stdin_good s" "USERPROFILE s0 = USERPROFILE s" "USERPROFILE s \<noteq> None"
  using assms
  by (auto simp: getConfigFilePath_def getUserProfile_def getenv_USERPROFILE_def
      create_directories_def Let_def
      split: option.splits if_splits outcome.splits)

lemma readOrCreateBasePath_asks:
  assumes cfg: "getConfigFilePath s = Returns cfg s0"
    and absent: "\<not> exists_path cfg s0"
    and fresh: "''Enter your preferred base directory: '' \<notin> set (stdout s)"
  shows "\<exists>basePath s'. readOrCreateBasePath s = Returns basePath s'
      \<and> (''Enter your preferred base directory: '' \<in> set (stdout s') \<longleftrightarrow>
           \<not> (stdin_good s \<and> (\<exists>cs. stdin s = CHR ''y'' # cs \<or> stdin s = CHR ''Y'' # cs)))"
proof -
  note facts = getConfigFilePath_Returns [OF cfg]
  from facts(7) obtain h where "USERPROFILE s = Some h" by auto
  then obtain home where home: "getUserProfile s0 = Returns home s0"
    by (simp add: getUserProfile_def getenv_USERPROFILE_def facts)
  have ow: "stdout (ofstream_write p t u) = stdout u" for p t u
    by (simp add: ofstream_write_def)
  show ?thesis
    using fresh absent
    by (simp add: readOrCreateBasePath_def cfg home Let_def facts ow
        first_char_getline_cin print_out_fields getline_cin_fields)
qed

lemma get_config_path_fresh:
  "get_config_path MAX_PATH_LEN (fresh_system\<lparr>stdin := i\<rparr>) =
     (Some (config_file ''/home/u''),
      fresh_system\<lparr>stdin := i, dirs := {''/home/u'' @ CONFIG_DIR}\<rparr>)"
  by (simp add: get_config_path_def getenv_USERPROFILE_def fresh_system_def c_str_def NUL_def
      snprintf_def strncat_def mkdir_def MAX_PATH_LEN_def config_file_def CONFIG_DIR_def
      CONFIG_FILE_def Let_def)

lemma getConfigFilePath_fresh:
  "getConfigFilePath (fresh_system\<lparr>stdin := i\<rparr>) =
     Returns (config_file ''/home/u'')
       (fresh_system\<lparr>stdin := i, dirs := {''/home/u'' @ CONFIG_DIR}\<rparr>)"
  by (simp add: getConfigFilePath_def getUserProfile_def getenv_USERPROFILE_def fresh_system_def
      c_str_def NUL_def create_directories_def path_append_def has_filename_def
      config_file_def CONFIG_DIR_def CONFIG_FILE_def backslash_def Let_def)


text \<open>
  An answer that is read: at each of the four yes/no prompts (the confirmation loop and
  the question about the default base directory, in \<^verbatim>\<open>main.c\<close> and in \<^verbatim>\<open>main.cpp\<close>) it
  counts as yes exactly when its first character is \<^verbatim>\<open>y\<close> or \<^verbatim>\<open>Y\<close>. Any other answer,
  the empty line included, is a no: the loop goes round again, and the configuration step
  asks for another base directory. In \<^verbatim>\<open>main.cpp\<close> the end of input is a no as well.
\<close>

lemma answer_read_decides:
  "(tolower (first_char r) = CHR ''y'') = (\<exists>t. r = CHR ''y'' # t \<or> r = CHR ''Y'' # t)
   \<and> (stdin s = c # cs \<longrightarrow>
        isl (prompt_user_for_folder_name_body finalName response s) = (c = CHR ''y'' \<or> c = CHR ''Y''))
   \<and> isl (promptForFolderName_body name t) =
        (stdin_good t \<and> (\<exists>cs. stdin t = CHR ''y'' # cs \<or> stdin t = CHR ''Y'' # cs))
   \<and> (get_config_path MAX_PATH_LEN u = (Some cfg, u0) \<and> files u cfg = None \<and> stdin u = d # ds
        \<and> ''Enter your preferred base directory: '' \<notin> set (stdout u) \<longrightarrow>
        (''Enter your preferred base directory: ''
           \<in> set (stdout (snd (read_or_create_config n response' u))))
        = (\<not> (d = CHR ''y'' \<or> d = CHR ''Y'')))
   \<and> (getConfigFilePath v = Returns cfg' v0 \<and> \<not> exists_path cfg' v0
        \<and> ''Enter your preferred base directory: '' \<notin> set (stdout v) \<longrightarrow>
        (\<exists>basePath v'. readOrCreateBasePath v = Returns basePath v'
           \<and> (''Enter your preferred base directory: '' \<in> set (stdout v'))
             = (\<not> (stdin_good v \<and> (\<exists>cs. stdin v = CHR ''y'' # cs \<or> stdin v = CHR ''Y'' # cs)))))"
  using affirmative_iff [of r] prompt_user_for_folder_name_body_yes [of s c cs finalName response]
    promptForFolderName_body_yes [of name t]
    read_or_create_config_asks [of u cfg u0 d ds n response']
    readOrCreateBasePath_asks [of v cfg' v0]
  by blast


lemma answer_read_decides_sample:
  "\<not> tolower (first_char []) = CHR ''y''
   \<and> \<not> isl (prompt_user_for_folder_name_body ''a'' [] (fresh_system\<lparr>stdin := [newline]\<rparr>))
   \<and> isl (promptForFolderName_body ''a'' (fresh_system\<lparr>stdin := ''Yes'' @ [newline]\<rparr>))
   \<and> ''Enter your preferred base directory: ''
        \<in> set (stdout (snd (read_or_create_config MAX_PATH_LEN []
              (fresh_system\<lparr>stdin := ''no'' @ [newline]\<rparr>))))
   \<and> (\<exists>basePath v'. readOrCreateBasePath (fresh_system\<lparr>stdin := ''yes'' @ [newline]\<rparr>)
          = Returns basePath v'
        \<and> ''Enter your preferred base directory: '' \<notin> set (stdout v'))"
proof -
  let ?Q = "''Enter your preferred base directory: ''"
  let ?u = "fresh_system\<lparr>stdin := ''no'' @ [newline]\<rparr>"
  let ?v = "fresh_system\<lparr>stdin := ''yes'' @ [newline]\<rparr>"
  have u: "files ?u (config_file ''/home/u'') = None" "stdin ?u = CHR ''n'' # (''o'' @ [newline])"
    "?Q \<notin> set (stdout ?u)"
    by (simp_all add: fresh_system_def)
  have v: "\<not> exists_path (config_file ''/home/u'')
        (fresh_system\<lparr>stdin := ''yes'' @ [newline], dirs := {''/home/u'' @ CONFIG_DIR}\<rparr>)"
    "?Q \<notin> set (stdout ?v)" "stdin_good ?v" "stdin ?v = CHR ''y'' # (''es'' @ [newline])"
    by (simp_all add: fresh_system_def exists_path_def config_file_def)
  have s: "stdin (fresh_system\<lparr>stdin := [newline]\<rparr>) = newline # []"
    and t: "stdin_good (fresh_system\<lparr>stdin := ''Yes'' @ [newline]\<rparr>)"
      "stdin (fresh_system\<lparr>stdin := ''Yes'' @ [newline]\<rparr>) = CHR ''Y'' # (''es'' @ [newline])"
    by (simp_all add: fresh_system_def)
  from answer_read_decides [of "[]" "fresh_system\<lparr>stdin := [newline]\<rparr>" newline "[]" "''a''" "[]"
      "''a''" "fresh_system\<lparr>stdin := ''Yes'' @ [newline]\<rparr>"
      ?u "config_file ''/home/u''" _ "CHR ''n''" "''o'' @ [newline]" MAX_PATH_LEN "[]"
      ?v "config_file ''/home/u''" _]
    get_config_path_fresh [of "''no'' @ [newline]"] getConfigFilePath_fresh [of "''yes'' @ [newline]"]
    u v s t
  show ?thesis by (simp add: newline_def)
qed

section \<open>Reading and creating the configuration file\<close>

lemma takeWhile_fgets_window:
  assumes "\<And>c. P c \<Longrightarrow> c \<noteq> newline"
  shows "takeWhile P (take (Suc (length (takeWhile (\<lambda>c. c \<noteq> newline) w))) w) = takeWhile P w"
  using assms by (induction w) auto

lemma cut_line_end_fgets:
  "fgets n content = Some (got, rest) \<Longrightarrow>
   cut_line_end got =
     takeWhile (\<lambda>c. c \<noteq> NUL \<and> c \<noteq> carriage_return \<and> c \<noteq> newline) (take (n - 1) content)"
proof -
  assume "fgets n content = Some (got, rest)"
  then have got: "got = take (Suc (length (takeWhile (\<lambda>c. c \<noteq> newline) (take (n - 1) content))))
      (take (n - 1) content)"
    by (auto simp: fgets_def Let_def split: if_splits)
  have "cut_line_end got = takeWhile (\<lambda>c. c \<noteq> NUL \<and> c \<noteq> carriage_return \<and> c \<noteq> newline) got"
    by (simp add: cut_line_end_def strcspn_def takeWhile_eq_take [symmetric])
  also have "\<dots> = takeWhile (\<lambda>c. c \<noteq> NUL \<and> c \<noteq> carriage_return \<and> c \<noteq> newline)
      (take (n - 1) content)"
    unfolding got by (rule takeWhile_fgets_window) simp
  finally show ?thesis .
qed

lemma read_or_create_config_reads:
  assumes cfg: "get_config_path MAX_PATH_LEN s = (Some cfg, s0)"
    and present: "files s cfg = Some content"
  shows "read_or_create_config n response s =
     (if content = [] then None
      else Some (takeWhile (\<lambda>c. c \<noteq> NUL \<and> c \<noteq> carriage_return \<and> c \<noteq> newline)
                   (take (n - 1) content)), s0)"
proof (cases "fgets n content")
  case None
  then have "content = []" by (auto simp: fgets_def Let_def split: if_splits)
  with None show ?thesis
    by (simp add: read_or_create_config_def cfg get_config_path_Some [OF cfg] present)
next
  case (Some a)
  then obtain got rest where g: "fgets n content = Some (got, rest)" by (cases a) auto
  then have "content \<noteq> []" by (auto simp: fgets_def)
  with g cut_line_end_fgets [OF g] show ?thesis
    by (simp add: read_or_create_config_def cfg get_config_path_Some [OF cfg] present)
qed

lemma readOrCreateBasePath_reads:
  assumes cfg: "getConfigFilePath s = Returns cfg s0"
    and present: "files s cfg = Some content"
  shows "readOrCreateBasePath s = Returns (takeWhile (\<lambda>c. c \<noteq> newline) content) s0"
  by (simp add: readOrCreateBasePath_def cfg getConfigFilePath_Returns [OF cfg] present
      exists_path_def ifstream_def getline_def Let_def)


lemma c_str_id: "NUL \<notin> set xs \<Longrightarrow> c_str xs = xs"
  by (auto simp: c_str_def takeWhile_eq_all_conv)

lemma length_CONFIG_DIR: "length CONFIG_DIR = 28"
  by (simp add: CONFIG_DIR_def)

lemma get_config_path_home:
  assumes "USERPROFILE s = Some home" "NUL \<notin> set home" "length home \<le> 984"
  shows "get_config_path MAX_PATH_LEN s =
    (Some (config_file home), snd (mkdir (home @ CONFIG_DIR) s))"
proof -
  have dir: "home @ [backslash] @ ''AppData'' @ [backslash] @ ''Local'' @ [backslash]
      @ ''FolderManager'' = home @ CONFIG_DIR"
    by (simp add: CONFIG_DIR_def)
  have fits: "snprintf MAX_PATH_LEN (home @ CONFIG_DIR) = home @ CONFIG_DIR"
    using assms(3) by (simp add: snprintf_def MAX_PATH_LEN_def length_CONFIG_DIR)
  have cat: "strncat (home @ CONFIG_DIR) ([backslash] @ ''config.txt'')
      (MAX_PATH_LEN - length (home @ CONFIG_DIR) - 1) = config_file home"
    using assms(3)
    by (simp add: strncat_def MAX_PATH_LEN_def length_CONFIG_DIR config_file_def CONFIG_FILE_def)
  show ?thesis
    unfolding get_config_path_def getenv_USERPROFILE_def
    by (simp only: assms(1) option.map option.case c_str_id [OF assms(2)] dir fits cat Let_def)
qed

lemma mkdir_fields:
  "files (snd (mkdir p s)) = files s" "stdin (snd (mkdir p s)) = stdin s"
  "stdout (snd (mkdir p s)) = stdout s" "stderr (snd (mkdir p s)) = stderr s"
  "can_write (snd (mkdir p s)) = can_write s" "USERPROFILE (snd (mkdir p s)) = USERPROFILE s"
  "can_chdir (snd (mkdir p s)) = can_chdir s" "can_open (snd (mkdir p s)) = can_open s"
  "downloads (snd (mkdir p s)) = downloads s" "can_mkdir (snd (mkdir p s)) = can_mkdir s"
  by (simp_all add: mkdir_def)

lemma fgets_stdin_y:
  "take 2 (stdin s) = [CHR ''y'', newline] \<Longrightarrow>
   fgets_stdin buf 10 s = ([CHR ''y'', newline], s\<lparr>stdin := drop 2 (stdin s)\<rparr>)"
proof -
  assume "take 2 (stdin s) = [CHR ''y'', newline]"
  then have "stdin s = [CHR ''y'', newline] @ drop 2 (stdin s)"
    by (metis append_take_drop_id)
  then show ?thesis
    using fgets_line [of 10 "[CHR ''y'']" "drop 2 (stdin s)"]
    by (simp add: fgets_stdin_def newline_def)
qed

lemma read_or_create_config_creates:
  assumes home: "USERPROFILE s = Some home" "NUL \<notin> set home" "length home \<le> 984"
    and absent: "files s (config_file home) = None"
    and writable: "can_write s (config_file home)"
    and yes: "stdin s = CHR ''y'' # newline # rest"
  shows "fst (read_or_create_config MAX_PATH_LEN response s) = Some (home @ [backslash] @ ''Projects'')"
    and "files (snd (read_or_create_config MAX_PATH_LEN response s)) =
      (files s)(config_file home \<mapsto> home @ [backslash] @ ''Projects'' @ [newline])"
    and "USERPROFILE (snd (read_or_create_config MAX_PATH_LEN response s)) = Some home"
    and "can_mkdir (snd (read_or_create_config MAX_PATH_LEN response s)) = can_mkdir s"
    and "can_chdir (snd (read_or_create_config MAX_PATH_LEN response s)) = can_chdir s"
    and "downloads (snd (read_or_create_config MAX_PATH_LEN response s)) = downloads s"
    and "stderr (snd (read_or_create_config MAX_PATH_LEN response s)) = stderr s"
proof -
  let ?s0 = "snd (mkdir (home @ CONFIG_DIR) s)"
  have base: "snprintf MAX_PATH_LEN (home @ [backslash] @ ''Projects'') = home @ [backslash] @ ''Projects''"
    using home(3) by (simp add: snprintf_def MAX_PATH_LEN_def)
  have env: "getenv_USERPROFILE ?s0 = Some home"
    by (simp add: getenv_USERPROFILE_def mkdir_fields home c_str_id)
  have nul: "c_str (home @ [backslash] @ ''Projects'') = home @ [backslash] @ ''Projects''"
    using home(2) by (intro c_str_id) (simp add: NUL_def backslash_def)
  have eq: "read_or_create_config MAX_PATH_LEN response s =
      (Some (home @ [backslash] @ ''Projects''),
       print_out (''Saved base directory to config file.'' @ [newline])
         ((print_out ''Use this as your base directory? (y/n): ''
            (print_out (''Suggested default base directory: '' @ (home @ [backslash] @ ''Projects'') @ [newline])
              (print_out (''Config file not found.'' @ [newline]) ?s0)))
           \<lparr>stdin := rest,
             files := (files s)(config_file home \<mapsto> (home @ [backslash] @ ''Projects'') @ [newline])\<rparr>))"
    unfolding read_or_create_config_def get_config_path_home [OF home]
    by (simp add: mkdir_fields absent env base [simplified] Let_def fgets_stdin_y yes first_char_def
        tolower_y writable nul [simplified] print_out_fields)
  show "fst (read_or_create_config MAX_PATH_LEN response s) = Some (home @ [backslash] @ ''Projects'')"
    by (simp add: eq)
  show "files (snd (read_or_create_config MAX_PATH_LEN response s)) =
      (files s)(config_file home \<mapsto> home @ [backslash] @ ''Projects'' @ [newline])"
    by (simp add: eq print_out_fields)
  show "USERPROFILE (snd (read_or_create_config MAX_PATH_LEN response s)) = Some home"
    by (simp add: eq print_out_fields mkdir_fields home)
  show "can_mkdir (snd (read_or_create_config MAX_PATH_LEN response s)) = can_mkdir s"
    "can_chdir (snd (read_or_create_config MAX_PATH_LEN response s)) = can_chdir s"
    "downloads (snd (read_or_create_config MAX_PATH_LEN response s)) = downloads s"
    "stderr (snd (read_or_create_config MAX_PATH_LEN response s)) = stderr s"
    by (simp_all add: eq print_out_fields mkdir_fields)
qed

lemma first_line_of_written:
  assumes "\<forall>c\<in>set xs. P c" "\<not> P newline"
  shows "takeWhile P (xs @ [newline]) = xs"
  using assms by (induction xs) auto

lemma read_or_create_config_reads_back:
  assumes home: "USERPROFILE t = Some home" "NUL \<notin> set home" "length home \<le> 984"
    and line: "carriage_return \<notin> set home" "newline \<notin> set home"
    and present: "files t (config_file home) = Some (home @ [backslash] @ ''Projects'' @ [newline])"
  shows "fst (read_or_create_config MAX_PATH_LEN response t) = Some (home @ [backslash] @ ''Projects'')"
proof -
  have whole: "take (MAX_PATH_LEN - 1) (home @ [backslash] @ ''Projects'' @ [newline])
      = (home @ [backslash] @ ''Projects'') @ [newline]"
    using home(3) by (simp add: MAX_PATH_LEN_def)
  have "\<forall>c\<in>set (home @ [backslash] @ ''Projects''). c \<noteq> NUL \<and> c \<noteq> carriage_return \<and> c \<noteq> newline"
    using home(2) line by (auto simp: NUL_def carriage_return_def newline_def backslash_def)
  then have "takeWhile (\<lambda>c. c \<noteq> NUL \<and> c \<noteq> carriage_return \<and> c \<noteq> newline)
      ((home @ [backslash] @ ''Projects'') @ [newline]) = home @ [backslash] @ ''Projects''"
    by (rule first_line_of_written) simp
  with read_or_create_config_reads [OF get_config_path_home [OF home] present, of MAX_PATH_LEN response]
  show ?thesis by (simp only: whole) simp
qed

lemma config_file_path_append:
  "path_append (home @ CONFIG_DIR) CONFIG_FILE = config_file home"
  by (simp add: path_append_def has_filename_def config_file_def CONFIG_DIR_def backslash_def)

lemma getConfigFilePath_home:
  assumes "USERPROFILE s = Some home" "NUL \<notin> set home"
  shows "getConfigFilePath s =
    (case create_directories (home @ CONFIG_DIR) s of
       None \<Rightarrow> Throws s
     | Some s1 \<Rightarrow> Returns (config_file home) s1)"
  by (simp add: getConfigFilePath_def getUserProfile_def getenv_USERPROFILE_def assms
      c_str_id config_file_path_append Let_def split: option.splits)

lemma create_directories_fields:
  assumes "create_directories p s = Some s0"
  shows "files s0 = files s" "stdin s0 = stdin s" "stdin_good s0 = stdin_good s"
    "stdout s0 = stdout s" "stderr s0 = stderr s" "can_write s0 = can_write s"
    "USERPROFILE s0 = USERPROFILE s" "dirs s0 = insert p (dirs s)"
    "can_mkdir s0 = can_mkdir s" "can_chdir s0 = can_chdir s" "downloads s0 = downloads s"
  using assms by (auto simp: create_directories_def split: if_splits)

lemma getline_cin_y:
  "stdin_good s \<Longrightarrow> take 2 (stdin s) = [CHR ''y'', newline] \<Longrightarrow>
   getline_cin b s = (''y'', s\<lparr>stdin := drop 2 (stdin s), stdin_good := True\<rparr>)"
proof -
  assume good: "stdin_good s" and "take 2 (stdin s) = [CHR ''y'', newline]"
  then have "stdin s = CHR ''y'' # newline # drop 2 (stdin s)"
    by (metis append_take_drop_id append_Cons append_Nil)
  then obtain r where "stdin s = CHR ''y'' # newline # r" "drop 2 (stdin s) = r"
    by simp
  with good show ?thesis
    by (simp add: getline_cin_def getline_def Let_def newline_def)
qed

lemma config_file_neq_dir: "config_file home \<noteq> home @ CONFIG_DIR"
  by (simp add: config_file_def)

lemma readOrCreateBasePath_creates:
  assumes home: "USERPROFILE s = Some home" "NUL \<notin> set home"
    and dir: "create_directories (home @ CONFIG_DIR) s = Some s0"
    and absent: "files s (config_file home) = None" "config_file home \<notin> dirs s"
    and writable: "can_write s (config_file home)"
    and yes: "stdin_good s" "stdin s = CHR ''y'' # newline # rest"
  shows "returned (readOrCreateBasePath s) = Some (home @ [backslash] @ ''Projects'')"
    and "files (after (readOrCreateBasePath s)) =
      (files s)(config_file home \<mapsto> home @ [backslash] @ ''Projects'' @ [newline])"
    and "USERPROFILE (after (readOrCreateBasePath s)) = Some home"
    and "dirs (after (readOrCreateBasePath s)) = insert (home @ CONFIG_DIR) (dirs s)"
    and "can_mkdir (after (readOrCreateBasePath s)) = can_mkdir s"
    and "can_chdir (after (readOrCreateBasePath s)) = can_chdir s"
    and "downloads (after (readOrCreateBasePath s)) = downloads s"
    and "stderr (after (readOrCreateBasePath s)) = stderr s"
proof -
  note f = create_directories_fields [OF dir]
  have cfg: "getConfigFilePath s = Returns (config_file home) s0"
    by (simp add: getConfigFilePath_home [OF home] dir)
  have ne: "\<not> exists_path (config_file home) s0"
    by (simp add: exists_path_def f absent config_file_neq_dir)
  have prof: "getUserProfile s0 = Returns home s0"
    by (simp add: getUserProfile_def getenv_USERPROFILE_def f home c_str_id)
  have eq: "readOrCreateBasePath s =
      Returns (home @ [backslash] @ ''Projects'')
        (print_out (''Saved base directory to config file.'' @ [newline])
          ((print_out ''Use this as your base directory? (y/n): ''
             (print_out (''Suggested default base directory: '' @ (home @ [backslash] @ ''Projects'') @ [newline])
               (print_out (''Config file not found.'' @ [newline]) s0)))
            \<lparr>stdin := rest, stdin_good := True,
              files := (files s)(config_file home \<mapsto> (home @ [backslash] @ ''Projects'') @ [newline])\<rparr>))"
    unfolding readOrCreateBasePath_def cfg
    by (simp add: ne prof Let_def getline_cin_y print_out_fields f yes first_char_def tolower_y
        ofstream_write_def writable DEFAULT_SUBDIR_def)
  show "returned (readOrCreateBasePath s) = Some (home @ [backslash] @ ''Projects'')"
    by (simp add: eq)
  show "files (after (readOrCreateBasePath s)) =
      (files s)(config_file home \<mapsto> home @ [backslash] @ ''Projects'' @ [newline])"
    by (simp add: eq print_out_fields)
  show "USERPROFILE (after (readOrCreateBasePath s)) = Some home"
    by (simp add: eq print_out_fields f home)
  show "dirs (after (readOrCreateBasePath s)) = insert (home @ CONFIG_DIR) (dirs s)"
    by (simp add: eq print_out_fields f)
  show "can_mkdir (after (readOrCreateBasePath s)) = can_mkdir s"
    "can_chdir (after (readOrCreateBasePath s)) = can_chdir s"
    "downloads (after (readOrCreateBasePath s)) = downloads s"
    "stderr (after (readOrCreateBasePath s)) = stderr s"
    by (simp_all add: eq print_out_fields f)
qed

lemma readOrCreateBasePath_reads_back:
  assumes home: "USERPROFILE t = Some home" "NUL \<notin> set home" "newline \<notin> set home"
    and dir: "home @ CONFIG_DIR \<in> dirs t"
    and present: "files t (config_file home) = Some (home @ [backslash] @ ''Projects'' @ [newline])"
  shows "returned (readOrCreateBasePath t) = Some (home @ [backslash] @ ''Projects'')"
proof -
  have cfg: "getConfigFilePath t = Returns (config_file home) t"
    by (simp add: getConfigFilePath_home [OF home(1,2)] create_directories_def dir)
  have "\<forall>c\<in>set (home @ [backslash] @ ''Projects''). c \<noteq> newline"
    using home(3) by (auto simp: newline_def backslash_def)
  then have "takeWhile (\<lambda>c. c \<noteq> newline) ((home @ [backslash] @ ''Projects'') @ [newline])
      = home @ [backslash] @ ''Projects''"
    by (rule first_line_of_written) simp
  with readOrCreateBasePath_reads [OF cfg present] show ?thesis by simp
qed


lemma home_u:
  "NUL \<notin> set ''/home/u''" "carriage_return \<notin> set ''/home/u''" "newline \<notin> set ''/home/u''"
  "length ''/home/u'' \<le> 984"
  by (simp_all add: NUL_def carriage_return_def newline_def)

lemma fresh_system_stdin:
  "USERPROFILE (fresh_system\<lparr>stdin := i\<rparr>) = Some ''/home/u''"
  "stdin (fresh_system\<lparr>stdin := i\<rparr>) = i"
  "stdin_good (fresh_system\<lparr>stdin := i\<rparr>)"
  by (simp_all add: fresh_system_def)

lemma fresh_system_disk:
  "files (fresh_system\<lparr>stdin := i\<rparr>) p = None"
  "can_write (fresh_system\<lparr>stdin := i\<rparr>) p"
  "p \<notin> dirs (fresh_system\<lparr>stdin := i\<rparr>)"
  "create_directories p (fresh_system\<lparr>stdin := i\<rparr>) \<noteq> None"
  by (simp_all add: fresh_system_def create_directories_def)

lemma outcome_Returns: "returned out = Some v \<Longrightarrow> out = Returns v (after out)"
  by (cases out) auto


text \<open>
  Claim C4, as stated, names the default \<^verbatim>\<open>/home/u/Projects\<close>. Both programs join the
  home directory and \<^verbatim>\<open>Projects\<close> with a backslash, so neither the file written nor the
  value returned is the one the claim gives.
\<close>

theorem configuration_round_trip_counterexample:
  "files (snd (read_or_create_config MAX_PATH_LEN []
            (fresh_system\<lparr>stdin := [CHR ''y'', newline]\<rparr>))) (config_file ''/home/u'')
     \<noteq> Some (''/home/u/Projects'' @ [newline])
   \<and> fst (read_or_create_config MAX_PATH_LEN []
            (fresh_system\<lparr>stdin := [CHR ''y'', newline]\<rparr>)) \<noteq> Some ''/home/u/Projects''
   \<and> files (after (readOrCreateBasePath (fresh_system\<lparr>stdin := [CHR ''y'', newline]\<rparr>)))
        (config_file ''/home/u'')
     \<noteq> Some (''/home/u/Projects'' @ [newline])
   \<and> returned (readOrCreateBasePath (fresh_system\<lparr>stdin := [CHR ''y'', newline]\<rparr>))
     \<noteq> Some ''/home/u/Projects''"
proof -
  let ?s = "fresh_system\<lparr>stdin := [CHR ''y'', newline]\<rparr>"
  obtain s0 where dir: "create_directories (''/home/u'' @ CONFIG_DIR) ?s = Some s0"
    using fresh_system_disk(4) by blast
  note c = read_or_create_config_creates [of ?s "''/home/u''" "[]" "[]",
      OF fresh_system_stdin(1) home_u(1,4) fresh_system_disk(1,2) fresh_system_stdin(2)]
  note d = readOrCreateBasePath_creates [of ?s "''/home/u''" s0 "[]",
      OF fresh_system_stdin(1) home_u(1) dir fresh_system_disk(1,3,2) fresh_system_stdin(3,2)]
  show ?thesis
    by (simp add: c d backslash_def)
qed


text \<open>
  Claim C4, amended: when no configuration file exists, its name is free and can be
  written, and the first line typed is \<^verbatim>\<open>y\<close>, the program writes a configuration file
  holding exactly the home directory, a backslash, \<^verbatim>\<open>Projects\<close> and a newline, returns
  that base directory without the newline, and returns it again when run on the disk it
  left (whatever is typed then). For the home directory \<^verbatim>\<open>/home/u\<close> the file holds
  \<^verbatim>\<open>/home/u\Projects\<close> and a newline. This holds for every home directory without NUL,
  carriage return and newline, of at most 984 characters so that the names fit the
  buffers of \<^verbatim>\<open>main.c\<close>; for \<^verbatim>\<open>main.cpp\<close> the configuration directory must exist or be
  creatable, since the program does not survive otherwise.
\<close>

theorem configuration_round_trip:
  "USERPROFILE s = Some home \<and> NUL \<notin> set home \<and> carriage_return \<notin> set home
     \<and> newline \<notin> set home \<and> length home \<le> 984
     \<and> files s (config_file home) = None \<and> can_write s (config_file home)
     \<and> stdin s = CHR ''y'' # newline # rest \<longrightarrow>
   fst (read_or_create_config MAX_PATH_LEN response s) = Some (home @ [backslash] @ ''Projects'')
   \<and> files (snd (read_or_create_config MAX_PATH_LEN response s)) (config_file home)
       = Some (home @ [backslash] @ ''Projects'' @ [newline])
   \<and> fst (read_or_create_config MAX_PATH_LEN response'
            (snd (read_or_create_config MAX_PATH_LEN response s)\<lparr>stdin := again\<rparr>))
       = Some (home @ [backslash] @ ''Projects'')
   \<and> (stdin_good s \<and> config_file home \<notin> dirs s
        \<and> create_directories (home @ CONFIG_DIR) s \<noteq> None \<longrightarrow>
      returned (readOrCreateBasePath s) = Some (home @ [backslash] @ ''Projects'')
      \<and> files (after (readOrCreateBasePath s)) (config_file home)
          = Some (home @ [backslash] @ ''Projects'' @ [newline])
      \<and> returned (readOrCreateBasePath
            (after (readOrCreateBasePath s)\<lparr>stdin := again, stdin_good := True\<rparr>))
          = Some (home @ [backslash] @ ''Projects''))"
proof (intro impI, elim conjE, intro conjI impI; (elim conjE)?)
  assume home: "USERPROFILE s = Some home" "NUL \<notin> set home" "length home \<le> 984"
    and line: "carriage_return \<notin> set home" "newline \<notin> set home"
    and absent: "files s (config_file home) = None"
    and writable: "can_write s (config_file home)"
    and yes: "stdin s = CHR ''y'' # newline # rest"
  note c = read_or_create_config_creates [OF home absent writable yes, of response]
  show "fst (read_or_create_config MAX_PATH_LEN response s) = Some (home @ [backslash] @ ''Projects'')"
    by (rule c(1))
  show "files (snd (read_or_create_config MAX_PATH_LEN response s)) (config_file home)
       = Some (home @ [backslash] @ ''Projects'' @ [newline])"
    by (simp add: c(2))
  show "fst (read_or_create_config MAX_PATH_LEN response'
            (snd (read_or_create_config MAX_PATH_LEN response s)\<lparr>stdin := again\<rparr>))
       = Some (home @ [backslash] @ ''Projects'')"
    by (rule read_or_create_config_reads_back [OF _ home(2,3) line]) (simp_all add: c)
  assume good: "stdin_good s" and nodir: "config_file home \<notin> dirs s"
    and "create_directories (home @ CONFIG_DIR) s \<noteq> None"
  then obtain s0 where dir: "create_directories (home @ CONFIG_DIR) s = Some s0" by auto
  note d = readOrCreateBasePath_creates [OF home(1,2) dir absent nodir writable good yes]
  show "returned (readOrCreateBasePath s) = Some (home @ [backslash] @ ''Projects'')"
    by (rule d(1))
  show "files (after (readOrCreateBasePath s)) (config_file home)
          = Some (home @ [backslash] @ ''Projects'' @ [newline])"
    by (simp add: d(2))
  show "returned (readOrCreateBasePath
            (after (readOrCreateBasePath s)\<lparr>stdin := again, stdin_good := True\<rparr>))
          = Some (home @ [backslash] @ ''Projects'')"
    by (rule readOrCreateBasePath_reads_back [OF _ home(2) line(2)]) (simp_all add: d)
qed

theorem configuration_round_trip_witness:
  "fst (read_or_create_config MAX_PATH_LEN [] (fresh_system\<lparr>stdin := [CHR ''y'', newline]\<rparr>))
     = Some (''/home/u'' @ [backslash] @ ''Projects'')
   \<and> files (snd (read_or_create_config MAX_PATH_LEN []
        (fresh_system\<lparr>stdin := [CHR ''y'', newline]\<rparr>))) (config_file ''/home/u'')
     = Some (''/home/u'' @ [backslash] @ ''Projects'' @ [newline])
   \<and> fst (read_or_create_config MAX_PATH_LEN []
        (snd (read_or_create_config MAX_PATH_LEN []
           (fresh_system\<lparr>stdin := [CHR ''y'', newline]\<rparr>))\<lparr>stdin := []\<rparr>))
     = Some (''/home/u'' @ [backslash] @ ''Projects'')
   \<and> returned (readOrCreateBasePath (fresh_system\<lparr>stdin := [CHR ''y'', newline]\<rparr>))
     = Some (''/home/u'' @ [backslash] @ ''Projects'')
   \<and> files (after (readOrCreateBasePath (fresh_system\<lparr>stdin := [CHR ''y'', newline]\<rparr>)))
        (config_file ''/home/u'')
     = Some (''/home/u'' @ [backslash] @ ''Projects'' @ [newline])
   \<and> returned (readOrCreateBasePath
        (after (readOrCreateBasePath (fresh_system\<lparr>stdin := [CHR ''y'', newline]\<rparr>))
           \<lparr>stdin := [], stdin_good := True\<rparr>))
     = Some (''/home/u'' @ [backslash] @ ''Projects'')"
proof -
  let ?s = "fresh_system\<lparr>stdin := [CHR ''y'', newline]\<rparr>"
  have H: "USERPROFILE ?s = Some ''/home/u'' \<and> NUL \<notin> set ''/home/u''
     \<and> carriage_return \<notin> set ''/home/u'' \<and> newline \<notin> set ''/home/u''
     \<and> length ''/home/u'' \<le> 984
     \<and> files ?s (config_file ''/home/u'') = None \<and> can_write ?s (config_file ''/home/u'')
     \<and> stdin ?s = CHR ''y'' # newline # []"
    by (intro conjI) (rule home_u fresh_system_stdin fresh_system_disk)+
  have H2: "stdin_good ?s \<and> config_file ''/home/u'' \<notin> dirs ?s
        \<and> create_directories (''/home/u'' @ CONFIG_DIR) ?s \<noteq> None"
    by (intro conjI) (rule fresh_system_stdin fresh_system_disk)+
  from configuration_round_trip [of ?s "''/home/u''" "[]" "[]" "[]" "[]", THEN mp, OF H] H2
  show ?thesis by blast
qed


text \<open>
  Claim C5, as stated, fails for \<^verbatim>\<open>main.c\<close> on an existing but empty configuration file:
  \<^verbatim>\<open>fgets\<close> returns NULL and \<^verbatim>\<open>read_or_create_config\<close> returns 0.
\<close>

theorem existing_configuration_counterexample:
  "fst (read_or_create_config MAX_PATH_LEN []
          (fresh_system\<lparr>files := [config_file ''/home/u'' \<mapsto> []]\<rparr>)) = None"
  by (simp add: read_or_create_config_def get_config_path_def getenv_USERPROFILE_def
      fresh_system_def c_str_def NUL_def snprintf_def strncat_def mkdir_def MAX_PATH_LEN_def
      config_file_def CONFIG_DIR_def CONFIG_FILE_def Let_def fgets_def)


text \<open>
  Claim C5, amended: when the configuration file exists, no validation is applied to its
  content. \<^verbatim>\<open>main.c\<close> returns the first 1023 characters of the file up to the first NUL,
  carriage return or newline, and fails (returns 0) when the file is empty. \<^verbatim>\<open>main.cpp\<close>
  returns the content up to the first newline, which is the empty string for an empty
  file, and never fails.
\<close>

theorem existing_configuration:
  "(get_config_path MAX_PATH_LEN s = (Some cfg, s0) \<and> files s cfg = Some content \<longrightarrow>
      read_or_create_config MAX_PATH_LEN response s =
        (if content = [] then None
         else Some (takeWhile (\<lambda>c. c \<noteq> NUL \<and> c \<noteq> carriage_return \<and> c \<noteq> newline)
                      (take 1023 content)), s0))
   \<and> (getConfigFilePath t = Returns cfg' t0 \<and> files t cfg' = Some content' \<longrightarrow>
      readOrCreateBasePath t = Returns (takeWhile (\<lambda>c. c \<noteq> newline) content') t0)"
  using read_or_create_config_reads [of s cfg s0 content MAX_PATH_LEN response]
    readOrCreateBasePath_reads [of t cfg' t0 content']
  by (simp add: MAX_PATH_LEN_def)

theorem existing_configuration_witness:
  "fst (read_or_create_config MAX_PATH_LEN []
     (fresh_system\<lparr>files := [config_file ''/home/u'' \<mapsto>
        ''C:'' @ [backslash] @ ''Users'' @ [backslash] @ ''me'' @ [backslash] @ ''Projects'' @ [newline]]\<rparr>))
     = Some (''C:'' @ [backslash] @ ''Users'' @ [backslash] @ ''me'' @ [backslash] @ ''Projects'')
   \<and> returned (readOrCreateBasePath
     (fresh_system\<lparr>files := [config_file ''/home/u'' \<mapsto>
        ''C:'' @ [backslash] @ ''Users'' @ [backslash] @ ''me'' @ [backslash] @ ''Projects'' @ [newline]]\<rparr>))
     = Some (''C:'' @ [backslash] @ ''Users'' @ [backslash] @ ''me'' @ [backslash] @ ''Projects'')
   \<and> returned (readOrCreateBasePath (fresh_system\<lparr>files := [config_file ''/home/u'' \<mapsto> []]\<rparr>))
     = Some []"
proof -
  let ?line = "''C:'' @ [backslash] @ ''Users'' @ [backslash] @ ''me'' @ [backslash] @ ''Projects'' @ [newline]"
  let ?s = "fresh_system\<lparr>files := [config_file ''/home/u'' \<mapsto> ?line]\<rparr>"
  let ?e = "fresh_system\<lparr>files := [config_file ''/home/u'' \<mapsto> []]\<rparr>"
  have h: "USERPROFILE ?s = Some ''/home/u''" "NUL \<notin> set ''/home/u''" "length ''/home/u'' \<le> 984"
    "USERPROFILE ?e = Some ''/home/u''"
    by (simp_all add: fresh_system_def NUL_def)
  have g: "get_config_path MAX_PATH_LEN ?s = (Some (config_file ''/home/u''), snd (mkdir (''/home/u'' @ CONFIG_DIR) ?s))"
    by (rule get_config_path_home [OF h(1,2,3)])
  have "returned (getConfigFilePath ?s) = Some (config_file ''/home/u'')"
    "returned (getConfigFilePath ?e) = Some (config_file ''/home/u'')"
    by (simp_all add: getConfigFilePath_def getUserProfile_def getenv_USERPROFILE_def
        fresh_system_def c_str_def NUL_def create_directories_def path_append_def has_filename_def
        config_file_def CONFIG_DIR_def CONFIG_FILE_def backslash_def Let_def)
  then have k: "getConfigFilePath ?s = Returns (config_file ''/home/u'') (after (getConfigFilePath ?s))"
    "getConfigFilePath ?e = Returns (config_file ''/home/u'') (after (getConfigFilePath ?e))"
    by (simp_all only: outcome_Returns)
  have f: "files ?s (config_file ''/home/u'') = Some ?line"
    "files ?e (config_file ''/home/u'') = Some []"
    by (simp_all add: fresh_system_def)
  let ?P = "\<lambda>c. c \<noteq> NUL \<and> c \<noteq> carriage_return \<and> c \<noteq> newline"
  let ?base = "''C:'' @ [backslash] @ ''Users'' @ [backslash] @ ''me'' @ [backslash] @ ''Projects''"
  note E = existing_configuration [of ?s "config_file ''/home/u''"
      "snd (mkdir (''/home/u'' @ CONFIG_DIR) ?s)" ?line "[]"
      ?s "config_file ''/home/u''" "after (getConfigFilePath ?s)" ?line]
  from E g f(1) have "read_or_create_config MAX_PATH_LEN [] ?s =
      (if ?line = [] then None else Some (takeWhile ?P (take 1023 ?line)),
       snd (mkdir (''/home/u'' @ CONFIG_DIR) ?s))"
    by blast
  then have "fst (read_or_create_config MAX_PATH_LEN [] ?s) =
      (if ?line = [] then None else Some (takeWhile ?P (take 1023 ?line)))"
    by (simp only: fst_conv)
  also have "\<dots> = Some ?base"
    by (simp add: NUL_def newline_def carriage_return_def backslash_def)
  finally have 1: "fst (read_or_create_config MAX_PATH_LEN [] ?s) = Some ?base" .
  from E k(1) f(1) have "readOrCreateBasePath ?s =
      Returns (takeWhile (\<lambda>c. c \<noteq> newline) ?line) (after (getConfigFilePath ?s))"
    by blast
  then have "returned (readOrCreateBasePath ?s) = Some (takeWhile (\<lambda>c. c \<noteq> newline) ?line)"
    by (simp only: returned.simps)
  also have "\<dots> = Some ?base"
    by (simp add: newline_def backslash_def)
  finally have 2: "returned (readOrCreateBasePath ?s) = Some ?base" .
  note E' = existing_configuration [of ?s "config_file ''/home/u''"
      "snd (mkdir (''/home/u'' @ CONFIG_DIR) ?s)" ?line "[]"
      ?e "config_file ''/home/u''" "after (getConfigFilePath ?e)" "[]"]
  from E' k(2) f(2) have "readOrCreateBasePath ?e =
      Returns (takeWhile (\<lambda>c. c \<noteq> newline) []) (after (getConfigFilePath ?e))"
    by blast
  then have 3: "returned (readOrCreateBasePath ?e) = Some []"
    by simp
  from 1 2 3 show ?thesis by (intro conjI)
qed

section \<open>The exit status and the handoffs\<close>

lemma ShellExecute_stderr: "stderr (ShellExecute p s) = stderr s"
  by (simp add: ShellExecute_def)

lemma ShellExecute_downloads: "downloads (ShellExecute p s) = downloads s"
  by (simp add: ShellExecute_def)

lemma open_downloads_folder_stderr:
  "stderr (open_downloads_folder s) =
     stderr s @ (if downloads s = None then [''Error: Could not locate Downloads folder'' @ [newline]] else [])"
  by (simp add: open_downloads_folder_def ShellExecute_stderr print_err_fields split: option.splits)

lemma openDownloadsFolder_stderr:
  "stderr (openDownloadsFolder s) =
     stderr s @ (if downloads s = None then [''Error: Could not locate Downloads folder.'' @ [newline]] else [])"
  by (simp add: openDownloadsFolder_def ShellExecute_stderr print_err_fields split: option.splits)

lemma main_c_success:
  assumes argv: "length argv = 2"
    and name: "prompt_user_for_folder_name (strncpy (argv ! 1) (MAX_NAME_LEN - 1)) response1 s
        = Some (folderName, s1)"
    and base: "read_or_create_config MAX_PATH_LEN response2 s1 = (Some basePath, s2)"
    and full: "fullPath = snprintf MAX_PATH_LEN (c_str basePath @ [backslash] @ folderName)"
    and dir: "fullPath \<in> dirs s2 \<or> can_mkdir s2 fullPath \<and> files s2 fullPath = None"
    and enter: "can_chdir s2 fullPath"
  shows "map_option fst (main_c argv response1 response2 s) = Some EXIT_SUCCESS"
    and "map_option (stderr \<circ> snd) (main_c argv response1 response2 s) =
      Some (stderr s2 @ (if downloads s2 = None
                         then [''Error: Could not locate Downloads folder'' @ [newline]] else []))"
proof -
  let ?s3 = "if \<not> directory_exists fullPath s2
             then print_out (''Directory created: '' @ fullPath @ [newline]) (snd (mkdir fullPath s2))
             else print_out (''Directory already exists: '' @ fullPath @ [newline]) s2"
  have made: "directory_exists fullPath s2 \<or> fst (mkdir fullPath s2)"
    using dir by (auto simp: directory_exists_def mkdir_def)
  have s3: "fullPath \<in> dirs ?s3" "can_chdir ?s3 fullPath" "stderr ?s3 = stderr s2"
    "downloads ?s3 = downloads s2"
    using dir enter by (auto simp: directory_exists_def mkdir_def print_out_fields)
  then have ch: "fst (chdir fullPath ?s3)" "stderr (snd (chdir fullPath ?s3)) = stderr s2"
    "downloads (snd (chdir fullPath ?s3)) = downloads s2"
    by (simp_all add: chdir_def)
  have eq: "main_c argv response1 response2 s =
      Some (EXIT_SUCCESS,
            open_downloads_folder (open_in_file_explorer fullPath (snd (chdir fullPath ?s3))))"
    unfolding main_c_def
    apply (simp only: argv simp_thms if_False name option.case prod.case base Let_def
        full [symmetric])
    using made ch(1) by (cases "directory_exists fullPath s2") simp_all
  show "map_option fst (main_c argv response1 response2 s) = Some EXIT_SUCCESS"
    by (simp add: eq)
  show "map_option (stderr \<circ> snd) (main_c argv response1 response2 s) =
      Some (stderr s2 @ (if downloads s2 = None
                         then [''Error: Could not locate Downloads folder'' @ [newline]] else []))"
    by (simp add: eq open_downloads_folder_stderr open_in_file_explorer_def ShellExecute_stderr
        ShellExecute_downloads ch)
qed

lemma main_cpp_success:
  assumes argv: "length argv = 2"
    and name: "promptForFolderName (c_str (argv ! 1)) s = Some (folderName, s1)"
    and base: "readOrCreateBasePath s1 = Returns basePath s2"
    and full: "fullPath = path_append basePath folderName"
    and nul: "NUL \<notin> set fullPath"
    and dir: "fullPath \<in> dirs s2 \<or> can_mkdir s2 fullPath \<and> files s2 fullPath = None"
    and enter: "can_chdir s2 fullPath"
  shows "map_option returned (main_cpp argv s) = Some (Some EXIT_SUCCESS)"
    and "map_option (stderr \<circ> after) (main_cpp argv s) =
      Some (stderr s2 @ (if downloads s2 = None
                         then [''Error: Could not locate Downloads folder.'' @ [newline]] else []))"
proof -
  let ?s3 = "if \<not> exists_path fullPath s2
             then print_out (''Directory created: '' @ quoted fullPath @ [newline])
                    (case create_directory fullPath s2 of Some (_, t) \<Rightarrow> t | None \<Rightarrow> s2)
             else print_out (''Directory already exists: '' @ quoted fullPath @ [newline]) s2"
  have cs: "c_str fullPath = fullPath" by (rule c_str_id [OF nul])
  have made: "exists_path fullPath s2 \<or> create_directory fullPath s2
      = Some (True, s2\<lparr>dirs := insert fullPath (dirs s2)\<rparr>)"
    using dir by (auto simp: exists_path_def create_directory_def)
  have s3: "fullPath \<in> dirs ?s3" "can_chdir ?s3 fullPath" "stderr ?s3 = stderr s2"
    "downloads ?s3 = downloads s2"
    using dir enter by (auto simp: exists_path_def create_directory_def print_out_fields)
  then have ch: "fst (chdir fullPath ?s3)" "stderr (snd (chdir fullPath ?s3)) = stderr s2"
    "downloads (snd (chdir fullPath ?s3)) = downloads s2"
    by (simp_all add: chdir_def)
  have eq: "main_cpp argv s =
      Some (Returns EXIT_SUCCESS
              (openDownloadsFolder (openInExplorer fullPath (snd (chdir fullPath ?s3)))))"
    unfolding main_cpp_def
    apply (simp only: argv simp_thms if_False name option.case prod.case base outcome.case Let_def
        full [symmetric] cs)
    using made ch(1) by (cases "exists_path fullPath s2") auto
  show "map_option returned (main_cpp argv s) = Some (Some EXIT_SUCCESS)"
    by (simp add: eq)
  show "map_option (stderr \<circ> after) (main_cpp argv s) =
      Some (stderr s2 @ (if downloads s2 = None
                         then [''Error: Could not locate Downloads folder.'' @ [newline]] else []))"
    by (simp add: eq openDownloadsFolder_stderr openInExplorer_def ShellExecute_stderr
        ShellExecute_downloads ch)
qed

lemma pair_eta: "fst x = a \<Longrightarrow> x = (a, snd x)"
  by (cases x) simp

lemma sample_run:
  assumes w: "USERPROFILE w = Some ''/home/u''" "files w = Map.empty" "dirs w = {}"
      "stdin w = CHR ''y'' # newline # CHR ''y'' # newline # []" "stdin_good w" "stderr w = []"
      "can_write w = (\<lambda>_. True)" "can_mkdir w = (\<lambda>_. True)" "can_chdir w = (\<lambda>_. True)"
  defines "s1 \<equiv> w\<lparr>stdin := CHR ''y'' # newline # [],
      stdout := stdout w @ [sanitized_message (sanitize_folder_name ''x''),
                            ''Do you want to use this name? (y/n): '']\<rparr>"
    and "t1 \<equiv> w\<lparr>stdin := CHR ''y'' # newline # [], stdin_good := True,
      stdout := stdout w @ [sanitized_message (sanitizeFolderName ''x''),
                            ''Do you want to use this name? (y/n): '']\<rparr>"
  defines "s2 \<equiv> snd (read_or_create_config MAX_PATH_LEN [] s1)"
    and "t2 \<equiv> after (readOrCreateBasePath t1)"
  shows "length sample_argv = 2"
    and "prompt_user_for_folder_name (strncpy (sample_argv ! 1) (MAX_NAME_LEN - 1)) [] w
          = Some (''x'', s1)"
    and "read_or_create_config MAX_PATH_LEN [] s1 = (Some (''/home/u'' @ [backslash] @ ''Projects''), s2)"
    and "sample_path = snprintf MAX_PATH_LEN
          (c_str (''/home/u'' @ [backslash] @ ''Projects'') @ [backslash] @ ''x'')"
    and "sample_path \<in> dirs s2 \<or> can_mkdir s2 sample_path \<and> files s2 sample_path = None"
    and "can_chdir s2 sample_path"
    and "stderr s2 = []" and "downloads s2 = downloads w"
    and "promptForFolderName (c_str (sample_argv ! 1)) w = Some (''x'', t1)"
    and "readOrCreateBasePath t1 = Returns (''/home/u'' @ [backslash] @ ''Projects'') t2"
    and "sample_path = path_append (''/home/u'' @ [backslash] @ ''Projects'') ''x''"
    and "NUL \<notin> set sample_path"
    and "sample_path \<in> dirs t2 \<or> can_mkdir t2 sample_path \<and> files t2 sample_path = None"
    and "can_chdir t2 sample_path"
    and "stderr t2 = []" and "downloads t2 = downloads w"
proof -
  have x: "strncpy (sample_argv ! 1) (MAX_NAME_LEN - 1) = ''x''" "c_str (sample_argv ! 1) = ''x''"
    "sanitize_folder_name ''x'' = ''x''" "sanitizeFolderName ''x'' = ''x''"
    by (simp_all add: sample_argv_def strncpy_def c_str_def MAX_NAME_LEN_def
        sanitize_folder_name_def sanitizeFolderName_def char_defs)
  show "length sample_argv = 2" by (simp add: sample_argv_def)
  show "prompt_user_for_folder_name (strncpy (sample_argv ! 1) (MAX_NAME_LEN - 1)) [] w
          = Some (''x'', s1)"
    unfolding x(1) s1_def using prompt_user_for_folder_name_y [OF w(4), of "''x''" "[]"]
    by (simp only: x(3))
  show "promptForFolderName (c_str (sample_argv ! 1)) w = Some (''x'', t1)"
    unfolding x(2) t1_def using promptForFolderName_y [OF w(4,5), of "''x''"]
    by (simp only: x(4))
  have s1: "USERPROFILE s1 = Some ''/home/u''" "files s1 (config_file ''/home/u'') = None"
    "can_write s1 (config_file ''/home/u'')" "stdin s1 = CHR ''y'' # newline # []"
    by (simp_all add: s1_def w)
  have s1f: "files s1 = Map.empty" "can_mkdir s1 = (\<lambda>_. True)" "can_chdir s1 = (\<lambda>_. True)"
    "stderr s1 = []" "downloads s1 = downloads w"
    by (simp_all add: s1_def w)
  note c = read_or_create_config_creates [OF s1(1) home_u(1,4) s1(2,3,4), of "[]"]
  show "read_or_create_config MAX_PATH_LEN [] s1 = (Some (''/home/u'' @ [backslash] @ ''Projects''), s2)"
    unfolding s2_def by (rule pair_eta) (rule c(1))
  have ne: "sample_path \<noteq> config_file ''/home/u''" "sample_path \<noteq> ''/home/u'' @ CONFIG_DIR"
    by (simp_all add: sample_path_def config_file_def CONFIG_DIR_def)
  show "sample_path = snprintf MAX_PATH_LEN
          (c_str (''/home/u'' @ [backslash] @ ''Projects'') @ [backslash] @ ''x'')"
    by (simp add: sample_path_def snprintf_def MAX_PATH_LEN_def c_str_def char_defs)
  show "sample_path \<in> dirs s2 \<or> can_mkdir s2 sample_path \<and> files s2 sample_path = None"
    unfolding s2_def by (simp add: c ne s1f)
  show "can_chdir s2 sample_path" "stderr s2 = []" "downloads s2 = downloads w"
    unfolding s2_def by (simp_all add: c s1f)
  have t1: "USERPROFILE t1 = Some ''/home/u''" "files t1 (config_file ''/home/u'') = None"
    "config_file ''/home/u'' \<notin> dirs t1"
    "can_write t1 (config_file ''/home/u'')" "stdin_good t1" "stdin t1 = CHR ''y'' # newline # []"
    by (simp_all add: t1_def w)
  have t1f: "files t1 = Map.empty" "can_mkdir t1 = (\<lambda>_. True)" "can_chdir t1 = (\<lambda>_. True)"
    "stderr t1 = []" "downloads t1 = downloads w" "dirs t1 = {}"
    by (simp_all add: t1_def w)
  have "create_directories (''/home/u'' @ CONFIG_DIR) t1
      = Some (t1\<lparr>dirs := insert (''/home/u'' @ CONFIG_DIR) (dirs t1)\<rparr>)"
    by (simp add: create_directories_def t1f)
  note d = readOrCreateBasePath_creates [OF t1(1) home_u(1) this t1(2,3,4,5,6)]
  show "readOrCreateBasePath t1 = Returns (''/home/u'' @ [backslash] @ ''Projects'') t2"
    unfolding t2_def by (rule outcome_Returns) (rule d(1))
  show "sample_path = path_append (''/home/u'' @ [backslash] @ ''Projects'') ''x''"
    "NUL \<notin> set sample_path"
    by (simp_all add: sample_path_def path_append_def has_filename_def char_defs)
  show "sample_path \<in> dirs t2 \<or> can_mkdir t2 sample_path \<and> files t2 sample_path = None"
    unfolding t2_def by (simp add: d ne t1f)
  show "can_chdir t2 sample_path" "stderr t2 = []" "downloads t2 = downloads w"
    unfolding t2_def by (simp_all add: d t1f)
qed

lemma silent_system_fields:
  "USERPROFILE silent_system = Some ''/home/u''" "files silent_system = Map.empty"
  "dirs silent_system = {}"
  "stdin silent_system = CHR ''y'' # newline # CHR ''y'' # newline # []"
  "stdin_good silent_system" "stderr silent_system = []"
  "can_write silent_system = (\<lambda>_. True)" "can_mkdir silent_system = (\<lambda>_. True)"
  "can_chdir silent_system = (\<lambda>_. True)"
  by (simp_all add: silent_system_def fresh_system_def)

lemma lost_downloads_system_fields:
  "USERPROFILE lost_downloads_system = Some ''/home/u''" "files lost_downloads_system = Map.empty"
  "dirs lost_downloads_system = {}"
  "stdin lost_downloads_system = CHR ''y'' # newline # CHR ''y'' # newline # []"
  "stdin_good lost_downloads_system" "stderr lost_downloads_system = []"
  "can_write lost_downloads_system = (\<lambda>_. True)" "can_mkdir lost_downloads_system = (\<lambda>_. True)"
  "can_chdir lost_downloads_system = (\<lambda>_. True)"
  by (simp_all add: lost_downloads_system_def fresh_system_def)


text \<open>Nothing before the handoffs depends on their answers.\<close>

lemma with_handoffs_fields:
  "stdin (with_handoffs d opens s) = stdin s" "stdin_good (with_handoffs d opens s) = stdin_good s"
  "files (with_handoffs d opens s) = files s" "dirs (with_handoffs d opens s) = dirs s"
  "USERPROFILE (with_handoffs d opens s) = USERPROFILE s"
  "can_write (with_handoffs d opens s) = can_write s"
  "can_mkdir (with_handoffs d opens s) = can_mkdir s"
  "can_chdir (with_handoffs d opens s) = can_chdir s"
  by (simp_all add: with_handoffs_def)

lemma with_handoffs_back:
  "with_handoffs (downloads s) (can_open s) (with_handoffs d opens s) = s"
  by (simp add: with_handoffs_def)

lemma print_out_with_handoffs:
  "print_out m (with_handoffs d opens s) = with_handoffs d opens (print_out m s)"
  "print_err m (with_handoffs d opens s) = with_handoffs d opens (print_err m s)"
  by (simp_all add: print_out_def print_err_def with_handoffs_def)

lemma fgets_stdin_with_handoffs:
  "fgets_stdin b n (with_handoffs d opens s) =
     (fst (fgets_stdin b n s), with_handoffs d opens (snd (fgets_stdin b n s)))"
  by (simp add: fgets_stdin_def with_handoffs_def split: option.splits prod.splits)

lemma getline_cin_with_handoffs:
  "getline_cin b (with_handoffs d opens s) =
     (fst (getline_cin b s), with_handoffs d opens (snd (getline_cin b s)))"
  by (simp add: getline_cin_def with_handoffs_def Let_def split: prod.splits)

lemma prompt_user_for_folder_name_body_with_handoffs:
  "prompt_user_for_folder_name_body f r (with_handoffs d opens s) =
     (case prompt_user_for_folder_name_body f r s of
        Inl c \<Rightarrow> Inl (fst c, with_handoffs d opens (snd c))
      | Inr a \<Rightarrow> Inr (fst a, fst (snd a), with_handoffs d opens (snd (snd a))))"
  by (simp add: prompt_user_for_folder_name_body_def Let_def print_out_with_handoffs
      fgets_stdin_with_handoffs)

lemma promptForFolderName_body_with_handoffs:
  "promptForFolderName_body n (with_handoffs d opens s) =
     (case promptForFolderName_body n s of
        Inl c \<Rightarrow> Inl (fst c, with_handoffs d opens (snd c))
      | Inr a \<Rightarrow> Inr (fst a, with_handoffs d opens (snd a)))"
  by (simp add: promptForFolderName_body_def Let_def print_out_with_handoffs
      getline_cin_with_handoffs)

lemma prompt_user_for_folder_name_with_handoffs_Some:
  assumes "prompt_user_for_folder_name f r s = Some y"
  shows "prompt_user_for_folder_name f r (with_handoffs d opens s)
         = Some (fst y, with_handoffs d opens (snd y))"
proof (rule prompt_user_for_folder_name.raw_induct
    [where P = "\<lambda>f r s y. prompt_user_for_folder_name f r (with_handoffs d opens s)
         = Some (fst y, with_handoffs d opens (snd y))", OF _ assms], goal_cases)
  case (1 g f r s y)
  show ?case
  proof (cases "prompt_user_for_folder_name_body f r s")
    case (Inl c)
    with 1(2) show ?thesis
      by (subst prompt_user_for_folder_name.simps)
        (simp add: prompt_user_for_folder_name_body_with_handoffs)
  next
    case (Inr a)
    with 1(2) have "g (fst a) (fst (snd a)) (snd (snd a)) = Some y" by simp
    from 1(1) [OF this] Inr show ?thesis
      by (subst prompt_user_for_folder_name.simps)
        (simp add: prompt_user_for_folder_name_body_with_handoffs)
  qed
qed

lemma promptForFolderName_loop_with_handoffs_Some:
  assumes "promptForFolderName_loop n s = Some y"
  shows "promptForFolderName_loop n (with_handoffs d opens s)
         = Some (fst y, with_handoffs d opens (snd y))"
proof (rule promptForFolderName_loop.raw_induct
    [where P = "\<lambda>n s y. promptForFolderName_loop n (with_handoffs d opens s)
         = Some (fst y, with_handoffs d opens (snd y))", OF _ assms], goal_cases)
  case (1 g n s y)
  show ?case
  proof (cases "promptForFolderName_body n s")
    case (Inl c)
    with 1(2) show ?thesis
      by (subst promptForFolderName_loop.simps)
        (simp add: promptForFolderName_body_with_handoffs)
  next
    case (Inr a)
    with 1(2) have "g (fst a) (snd a) = Some y" by simp
    from 1(1) [OF this] Inr show ?thesis
      by (subst promptForFolderName_loop.simps)
        (simp add: promptForFolderName_body_with_handoffs)
  qed
qed

lemma prompt_user_for_folder_name_with_handoffs:
  "prompt_user_for_folder_name f r (with_handoffs d opens s) =
     map_option (\<lambda>y. (fst y, with_handoffs d opens (snd y))) (prompt_user_for_folder_name f r s)"
proof (cases "prompt_user_for_folder_name f r s")
  case (Some y)
  then show ?thesis by (simp add: prompt_user_for_folder_name_with_handoffs_Some)
next
  case None
  show ?thesis
  proof (cases "prompt_user_for_folder_name f r (with_handoffs d opens s)")
    case (Some z)
    from prompt_user_for_folder_name_with_handoffs_Some [OF Some, of "downloads s" "can_open s"]
    have "prompt_user_for_folder_name f r s \<noteq> None"
      by (simp add: with_handoffs_back)
    with None show ?thesis by simp
  next
    case None': None
    with None show ?thesis by simp
  qed
qed

lemma promptForFolderName_loop_with_handoffs:
  "promptForFolderName_loop n (with_handoffs d opens s) =
     map_option (\<lambda>y. (fst y, with_handoffs d opens (snd y))) (promptForFolderName_loop n s)"
proof (cases "promptForFolderName_loop n s")
  case (Some y)
  then show ?thesis by (simp add: promptForFolderName_loop_with_handoffs_Some)
next
  case None
  show ?thesis
  proof (cases "promptForFolderName_loop n (with_handoffs d opens s)")
    case (Some z)
    from promptForFolderName_loop_with_handoffs_Some [OF Some, of "downloads s" "can_open s"]
    have "promptForFolderName_loop n s \<noteq> None"
      by (simp add: with_handoffs_back)
    with None show ?thesis by simp
  next
    case None': None
    with None show ?thesis by simp
  qed
qed


lemma promptForFolderName_with_handoffs:
  "promptForFolderName n (with_handoffs d opens s) =
     map_option (\<lambda>y. (fst y, with_handoffs d opens (snd y))) (promptForFolderName n s)"
  by (simp add: promptForFolderName_def promptForFolderName_loop_with_handoffs)

lemma mkdir_with_handoffs:
  "mkdir p (with_handoffs d opens s) = (fst (mkdir p s), with_handoffs d opens (snd (mkdir p s)))"
  by (simp add: mkdir_def with_handoffs_def)

lemma chdir_with_handoffs:
  "chdir p (with_handoffs d opens s) = (fst (chdir p s), with_handoffs d opens (snd (chdir p s)))"
  by (simp add: chdir_def with_handoffs_def)

lemma get_config_path_with_handoffs:
  "get_config_path n (with_handoffs d opens s) =
     (fst (get_config_path n s), with_handoffs d opens (snd (get_config_path n s)))"
  by (simp add: get_config_path_def getenv_USERPROFILE_def with_handoffs_fields
      print_out_with_handoffs mkdir_with_handoffs Let_def split: option.splits)

lemma files_update_with_handoffs:
  "(with_handoffs d opens s)\<lparr>files := f\<rparr> = with_handoffs d opens (s\<lparr>files := f\<rparr>)"
  by (simp add: with_handoffs_def)

lemma read_or_create_config_with_handoffs:
  "read_or_create_config n r (with_handoffs d opens s) =
     (fst (read_or_create_config n r s), with_handoffs d opens (snd (read_or_create_config n r s)))"
proof -
  obtain opt s0 where g: "get_config_path MAX_PATH_LEN s = (opt, s0)"
    by (cases "get_config_path MAX_PATH_LEN s")
  then have g': "get_config_path MAX_PATH_LEN (with_handoffs d opens s)
      = (opt, with_handoffs d opens s0)"
    by (simp add: get_config_path_with_handoffs)
  show ?thesis
  proof (cases opt)
    case None
    then show ?thesis by (simp add: read_or_create_config_def g g')
  next
    case (Some cfg)
    show ?thesis
    proof (cases "files s0 cfg")
      case present: (Some content)
      show ?thesis
        by (cases "fgets n content")
          (auto simp: read_or_create_config_def g g' Some present with_handoffs_fields)
    next
      case None
      then show ?thesis
        by (simp add: read_or_create_config_def g g' Some with_handoffs_fields
            getenv_USERPROFILE_def print_out_with_handoffs fgets_stdin_with_handoffs
            files_update_with_handoffs Let_def)
    qed
  qed
qed

lemma directory_exists_with_handoffs:
  "directory_exists p (with_handoffs d opens s) = directory_exists p s"
  "exists_path p (with_handoffs d opens s) = exists_path p s"
  by (simp_all add: directory_exists_def exists_path_def with_handoffs_fields)

lemma main_c_with_handoffs:
  "map_option fst (main_c argv response1 response2 (with_handoffs d opens s))
   = map_option fst (main_c argv response1 response2 s)"
proof (cases "length argv = 2")
  case False
  then show ?thesis by (simp add: main_c_def)
next
  case True
  show ?thesis
  proof (cases "prompt_user_for_folder_name (strncpy (argv ! 1) (MAX_NAME_LEN - 1)) response1 s")
    case None
    with True show ?thesis
      unfolding main_c_def by (simp only: prompt_user_for_folder_name_with_handoffs) simp
  next
    case (Some y)
    obtain folderName s1 where y: "y = (folderName, s1)" by (cases y)
    obtain opt s2 where c: "read_or_create_config MAX_PATH_LEN response2 s1 = (opt, s2)"
      by (cases "read_or_create_config MAX_PATH_LEN response2 s1")
    show ?thesis
    proof (cases opt)
      case None
      with True Some y c show ?thesis
        unfolding main_c_def
        by (simp only: prompt_user_for_folder_name_with_handoffs
            read_or_create_config_with_handoffs option.map option.case prod.case fst_conv snd_conv)
          simp
    next
      case base: (Some basePath)
      with True Some y c show ?thesis
        unfolding main_c_def
        apply (simp only: prompt_user_for_folder_name_with_handoffs
            read_or_create_config_with_handoffs option.map option.case prod.case fst_conv snd_conv
            simp_thms if_False Let_def)
        by (simp add: directory_exists_with_handoffs mkdir_with_handoffs chdir_with_handoffs
            print_out_with_handoffs)
    qed
  qed
qed

lemma create_directories_with_handoffs:
  "create_directories p (with_handoffs d opens s) =
     map_option (with_handoffs d opens) (create_directories p s)"
  by (simp add: create_directories_def with_handoffs_def)

lemma create_directory_with_handoffs:
  "create_directory p (with_handoffs d opens s) =
     map_option (\<lambda>y. (fst y, with_handoffs d opens (snd y))) (create_directory p s)"
  by (simp add: create_directory_def with_handoffs_def)

lemma getUserProfile_with_handoffs:
  "getUserProfile (with_handoffs d opens s) =
     (case getUserProfile s of
        Returns v t \<Rightarrow> Returns v (with_handoffs d opens t)
      | Exits code t \<Rightarrow> Exits code (with_handoffs d opens t)
      | Throws t \<Rightarrow> Throws (with_handoffs d opens t))"
  by (simp add: getUserProfile_def getenv_USERPROFILE_def with_handoffs_fields
      print_out_with_handoffs split: option.splits)

lemma getConfigFilePath_with_handoffs:
  "getConfigFilePath (with_handoffs d opens s) =
     (case getConfigFilePath s of
        Returns v t \<Rightarrow> Returns v (with_handoffs d opens t)
      | Exits code t \<Rightarrow> Exits code (with_handoffs d opens t)
      | Throws t \<Rightarrow> Throws (with_handoffs d opens t))"
  by (cases "getUserProfile s")
    (simp_all add: getConfigFilePath_def getUserProfile_with_handoffs
      create_directories_with_handoffs Let_def split: option.splits)

lemma ofstream_write_with_handoffs:
  "ofstream_write p t (with_handoffs d opens s) = with_handoffs d opens (ofstream_write p t s)"
  by (simp add: ofstream_write_def with_handoffs_def)

lemma ifstream_with_handoffs: "ifstream p (with_handoffs d opens s) = ifstream p s"
  by (simp add: ifstream_def with_handoffs_fields)

lemma readOrCreateBasePath_with_handoffs:
  "readOrCreateBasePath (with_handoffs d opens s) =
     (case readOrCreateBasePath s of
        Returns v t \<Rightarrow> Returns v (with_handoffs d opens t)
      | Exits code t \<Rightarrow> Exits code (with_handoffs d opens t)
      | Throws t \<Rightarrow> Throws (with_handoffs d opens t))"
proof (cases "getConfigFilePath s")
  case (Returns cfg s0)
  show ?thesis
  proof (cases "exists_path cfg s0")
    case True
    with Returns show ?thesis
      by (simp add: readOrCreateBasePath_def getConfigFilePath_with_handoffs
          directory_exists_with_handoffs ifstream_with_handoffs)
  next
    case False
    show ?thesis
    proof (cases "getUserProfile s0")
      case home: (Returns h s1)
      with Returns False show ?thesis
        by (simp add: readOrCreateBasePath_def getConfigFilePath_with_handoffs
            getUserProfile_with_handoffs directory_exists_with_handoffs
            print_out_with_handoffs getline_cin_with_handoffs ofstream_write_with_handoffs Let_def)
    qed (use Returns False in \<open>simp_all add: readOrCreateBasePath_def getConfigFilePath_with_handoffs
            getUserProfile_with_handoffs directory_exists_with_handoffs\<close>)
  qed
qed (simp_all add: readOrCreateBasePath_def getConfigFilePath_with_handoffs)

lemma main_cpp_with_handoffs:
  "map_option exit_status (main_cpp argv (with_handoffs d opens s))
   = map_option exit_status (main_cpp argv s)"
proof (cases "length argv = 2")
  case False
  then show ?thesis by (simp add: main_cpp_def)
next
  case True
  show ?thesis
  proof (cases "promptForFolderName (c_str (argv ! 1)) s")
    case None
    with True show ?thesis
      unfolding main_cpp_def by (simp only: promptForFolderName_with_handoffs) simp
  next
    case (Some y)
    obtain folderName s1 where y: "y = (folderName, s1)" by (cases y)
    show ?thesis
    proof (cases "readOrCreateBasePath s1")
      case (Returns basePath s2)
      with True Some y show ?thesis
        unfolding main_cpp_def
        apply (simp only: promptForFolderName_with_handoffs readOrCreateBasePath_with_handoffs
            option.map option.case prod.case outcome.case fst_conv snd_conv simp_thms if_False Let_def)
        by (cases "create_directory (path_append basePath folderName) s2")
          (auto simp: directory_exists_with_handoffs create_directory_with_handoffs
            chdir_with_handoffs print_out_with_handoffs)
    next
      case (Exits code s2)
      with True Some y show ?thesis
        unfolding main_cpp_def
        by (simp only: promptForFolderName_with_handoffs readOrCreateBasePath_with_handoffs
            option.map option.case prod.case outcome.case fst_conv snd_conv simp_thms if_False)
          simp
    next
      case (Throws s2)
      with True Some y show ?thesis
        unfolding main_cpp_def
        by (simp only: promptForFolderName_with_handoffs readOrCreateBasePath_with_handoffs
            option.map option.case prod.case outcome.case fst_conv snd_conv simp_thms if_False)
          simp
    qed
  qed
qed

text \<open>
  Claim C9, as stated, has every failure to locate or to open the Downloads folder
  reported on standard error. Both programs discard the result of \<^verbatim>\<open>ShellExecute\<close>: in
  the sample run on a machine where no Explorer window can be opened, the Downloads
  folder is located, neither window opens, the exit status is 0 and nothing at all is
  written to standard error.
\<close>

theorem handoffs_keep_exit_status_counterexample:
  "downloads silent_system = Some ''Downloads'' \<and> \<not> can_open silent_system ''Downloads''
   \<and> map_option fst (main_c sample_argv [] [] silent_system) = Some EXIT_SUCCESS
   \<and> map_option (stderr \<circ> snd) (main_c sample_argv [] [] silent_system) = Some []
   \<and> map_option returned (main_cpp sample_argv silent_system) = Some (Some EXIT_SUCCESS)
   \<and> map_option (stderr \<circ> after) (main_cpp sample_argv silent_system) = Some []"
proof -
  note r = sample_run [OF silent_system_fields]
  have d: "downloads silent_system = Some ''Downloads''" "\<not> can_open silent_system ''Downloads''"
    by (simp_all add: silent_system_def fresh_system_def)
  note c = main_c_success [OF r(1,2,3,4,5,6)]
  note e = main_cpp_success [OF r(1,9,10,11,12,13,14)]
  from d c e show ?thesis
    by (simp only: r(7,8,15,16) d option.simps if_False append_Nil simp_thms)
qed


text \<open>
  Claim C9, amended: in every run in which the name is confirmed, the base directory is
  resolved, the target directory exists or is created, and the process enters it, the
  program exits with status 0, whatever the two handoffs do. Of the handoffs' failures
  only the failure to locate the Downloads folder is reported, as one line on standard
  error; a failure to open the target folder or the Downloads folder in the file
  browser is neither detected nor reported. The conclusion gives what the handoffs
  add to standard error. The last two parts say that, in every run, whether the program
  ends and with which exit status is the same whatever the handoffs answer.
\<close>

theorem handoffs_keep_exit_status:
  "(length argv = 2
    \<and> prompt_user_for_folder_name (strncpy (argv ! 1) (MAX_NAME_LEN - 1)) response1 s
        = Some (folderName, s1)
    \<and> read_or_create_config MAX_PATH_LEN response2 s1 = (Some basePath, s2)
    \<and> fullPath = snprintf MAX_PATH_LEN (c_str basePath @ [backslash] @ folderName)
    \<and> (fullPath \<in> dirs s2 \<or> can_mkdir s2 fullPath \<and> files s2 fullPath = None)
    \<and> can_chdir s2 fullPath \<longrightarrow>
    map_option fst (main_c argv response1 response2 s) = Some EXIT_SUCCESS
    \<and> map_option (stderr \<circ> snd) (main_c argv response1 response2 s) =
        Some (stderr s2 @ (if downloads s2 = None
                           then [''Error: Could not locate Downloads folder'' @ [newline]] else [])))
   \<and> (length argv = 2
    \<and> promptForFolderName (c_str (argv ! 1)) s = Some (folderName', t1)
    \<and> readOrCreateBasePath t1 = Returns basePath' t2
    \<and> fullPath' = path_append basePath' folderName' \<and> NUL \<notin> set fullPath'
    \<and> (fullPath' \<in> dirs t2 \<or> can_mkdir t2 fullPath' \<and> files t2 fullPath' = None)
    \<and> can_chdir t2 fullPath' \<longrightarrow>
    map_option returned (main_cpp argv s) = Some (Some EXIT_SUCCESS)
    \<and> map_option (stderr \<circ> after) (main_cpp argv s) =
        Some (stderr t2 @ (if downloads t2 = None
                           then [''Error: Could not locate Downloads folder.'' @ [newline]] else [])))
   \<and> map_option fst (main_c argv response1 response2 (with_handoffs d opens s))
       = map_option fst (main_c argv response1 response2 s)
   \<and> map_option exit_status (main_cpp argv (with_handoffs d opens s))
       = map_option exit_status (main_cpp argv s)"
  using main_c_success [of argv response1 s folderName s1 response2 basePath s2 fullPath]
    main_cpp_success [of argv s folderName' t1 basePath' t2 fullPath']
    main_c_with_handoffs [of argv response1 response2 d opens s]
    main_cpp_with_handoffs [of argv d opens s]
  by blast


theorem handoffs_keep_exit_status_witness:
  "map_option fst (main_c sample_argv [] [] lost_downloads_system) = Some EXIT_SUCCESS
   \<and> map_option (stderr \<circ> snd) (main_c sample_argv [] [] lost_downloads_system)
       = Some [''Error: Could not locate Downloads folder'' @ [newline]]
   \<and> map_option returned (main_cpp sample_argv lost_downloads_system)
       = Some (Some EXIT_SUCCESS)
   \<and> map_option (stderr \<circ> after) (main_cpp sample_argv lost_downloads_system)
       = Some [''Error: Could not locate Downloads folder.'' @ [newline]]"
proof -
  note r = sample_run [OF lost_downloads_system_fields]
  have d: "downloads lost_downloads_system = None"
    by (simp add: lost_downloads_system_def)
  note T = handoffs_keep_exit_status [of sample_argv "[]" lost_downloads_system,
      THEN conjunct1, THEN mp, OF conjI [OF r(1) conjI [OF r(2) conjI [OF r(3) conjI [OF r(4)
        conjI [OF r(5) r(6)]]]]]]
  note U = handoffs_keep_exit_status [of sample_argv _ lost_downloads_system,
      THEN conjunct2, THEN conjunct1, THEN mp, OF conjI [OF r(1) conjI [OF r(9) conjI [OF r(10) conjI [OF r(11)
        conjI [OF r(12) conjI [OF r(13) r(14)]]]]]]]
  from T U show ?thesis
    by (simp only: r(7,8,15,16) d if_True append_Nil simp_thms)
qed

section \<open>The name the confirmation loop returns\<close>

lemma getline_cin_line:
  "stdin_good s \<Longrightarrow> stdin s = line @ newline # rest \<Longrightarrow> list_all (\<lambda>c. c \<noteq> newline) line \<Longrightarrow>
   getline_cin b s = (line, s\<lparr>stdin := rest, stdin_good := True\<rparr>)"
proof -
  assume good: "stdin_good s" and inp: "stdin s = line @ newline # rest"
    and nl: "list_all (\<lambda>c. c \<noteq> newline) line"
  have tw: "takeWhile (\<lambda>c. c \<noteq> newline) (line @ newline # rest) = line"
    using nl by (induction line) auto
  show ?thesis
    by (simp add: getline_cin_def getline_def Let_def good inp tw)
qed

lemma fgets_stdin_line:
  "stdin s = line @ newline # rest \<Longrightarrow> list_all (\<lambda>c. c \<noteq> newline) line \<Longrightarrow>
   1 < n \<Longrightarrow> length line < n - 1 \<Longrightarrow>
   fgets_stdin b n s = (line @ [newline], s\<lparr>stdin := rest\<rparr>)"
proof -
  assume inp: "stdin s = line @ newline # rest" and nl: "list_all (\<lambda>c. c \<noteq> newline) line"
    and n: "1 < n" "length line < n - 1"
  from nl have "newline \<notin> set line" by (auto simp: list_all_iff)
  with n have "fgets n (line @ newline # rest) = Some (line @ [newline], rest)"
    by (intro fgets_line)
  then show ?thesis by (simp add: fgets_stdin_def inp)
qed

lemma first_char_line:
  "tolower (first_char (line @ [newline])) = CHR ''y'' \<longleftrightarrow> tolower (first_char line) = CHR ''y''"
  by (cases line) (simp_all add: first_char_def tolower_y newline_def NUL_def)

lemma cut_line_end_typed_name:
  "typed_name name \<Longrightarrow> cut_line_end (name @ [newline]) = name"
proof -
  assume "typed_name name"
  then have "\<forall>c\<in>set name. c \<noteq> NUL \<and> c \<notin> set [carriage_return, newline]"
    by (auto simp: typed_name_def list_all_iff)
  then have "takeWhile (\<lambda>c. c \<noteq> NUL \<and> c \<notin> set [carriage_return, newline]) (name @ [newline]) = name"
    by (rule first_line_of_written) simp
  then show ?thesis
    by (simp add: cut_line_end_def strcspn_def takeWhile_eq_take [symmetric])
qed

lemma promptForFolderName_loop_returns:
  assumes "stdin_good s" "stdin s = typed rounds (CHR ''y'' # newline # rest)"
    and "list_all (\<lambda>(response, name). rejection response \<and> typed_name name) rounds"
  shows "map_option fst (promptForFolderName_loop raw s)
         = Some (sanitizeFolderName (last (raw # map snd rounds)))"
  using assms
proof (induction rounds arbitrary: raw s)
  case Nil
  then show ?case
    using promptForFolderName_y [of s rest raw] by (simp add: promptForFolderName_def)
next
  case (Cons round rounds)
  obtain response name where round: "round = (response, name)" by (cases round)
  from Cons.prems round have rej: "rejection response" and nam: "typed_name name"
    and more: "list_all (\<lambda>(response, name). rejection response \<and> typed_name name) rounds"
    by simp_all
  let ?s2 = "print_out ''Do you want to use this name? (y/n): ''
      (print_out (sanitized_message (sanitizeFolderName raw)) s)"
  have r: "getline_cin [] ?s2 = (response, ?s2\<lparr>stdin := name @ newline # typed rounds (CHR ''y'' # newline # rest),
      stdin_good := True\<rparr>)"
    using rej Cons.prems(1,2)
    by (intro getline_cin_line) (simp_all add: print_out_fields round rejection_def)
  let ?s3 = "print_out ''Enter a new folder name: ''
      (?s2\<lparr>stdin := name @ newline # typed rounds (CHR ''y'' # newline # rest), stdin_good := True\<rparr>)"
  have n: "getline_cin raw ?s3 = (name, ?s3\<lparr>stdin := typed rounds (CHR ''y'' # newline # rest),
      stdin_good := True\<rparr>)"
    using nam
    by (intro getline_cin_line) (auto simp: print_out_fields typed_name_def list_all_iff)
  have body: "promptForFolderName_body raw s =
      Inr (name, ?s3\<lparr>stdin := typed rounds (CHR ''y'' # newline # rest), stdin_good := True\<rparr>)"
    using rej by (simp add: promptForFolderName_body_def Let_def r n rejection_def)
  have "map_option fst (promptForFolderName_loop name
      (?s3\<lparr>stdin := typed rounds (CHR ''y'' # newline # rest), stdin_good := True\<rparr>))
      = Some (sanitizeFolderName (last (name # map snd rounds)))"
    by (rule Cons.IH) (simp_all add: more)
  then show ?case
    by (subst promptForFolderName_loop.simps) (simp add: body round)
qed

lemma prompt_user_for_folder_name_returns:
  assumes "stdin s = typed rounds (CHR ''y'' # newline # rest)"
    and "list_all (\<lambda>(response, name). rejection response \<and> typed_name name) rounds"
  shows "map_option fst (prompt_user_for_folder_name raw response0 s)
         = Some (sanitize_folder_name (last (raw # map snd rounds)))"
  using assms
proof (induction rounds arbitrary: raw response0 s)
  case Nil
  then show ?case
    using prompt_user_for_folder_name_y [of s rest raw response0] by simp
next
  case (Cons round rounds)
  obtain response name where round: "round = (response, name)" by (cases round)
  from Cons.prems round have rej: "rejection response" and nam: "typed_name name"
    and more: "list_all (\<lambda>(response, name). rejection response \<and> typed_name name) rounds"
    by simp_all
  let ?s2 = "print_out ''Do you want to use this name? (y/n): ''
      (print_out (sanitized_message (sanitize_folder_name raw)) s)"
  have r: "fgets_stdin response0 10 ?s2 = (response @ [newline],
      ?s2\<lparr>stdin := name @ newline # typed rounds (CHR ''y'' # newline # rest)\<rparr>)"
    using rej Cons.prems(1)
    by (intro fgets_stdin_line) (simp_all add: print_out_fields round rejection_def)
  let ?s3 = "print_out ''Enter a new folder name: ''
      (?s2\<lparr>stdin := name @ newline # typed rounds (CHR ''y'' # newline # rest)\<rparr>)"
  have n: "fgets_stdin raw MAX_NAME_LEN ?s3 = (name @ [newline],
      ?s3\<lparr>stdin := typed rounds (CHR ''y'' # newline # rest)\<rparr>)"
    using nam
    by (intro fgets_stdin_line)
      (auto simp: print_out_fields typed_name_def MAX_NAME_LEN_def list_all_iff)
  have body: "prompt_user_for_folder_name_body raw response0 s =
      Inr (name, response @ [newline], ?s3\<lparr>stdin := typed rounds (CHR ''y'' # newline # rest)\<rparr>)"
    using rej
    by (simp add: prompt_user_for_folder_name_body_def Let_def r n rejection_def first_char_line
        cut_line_end_typed_name [OF nam])
  have "map_option fst (prompt_user_for_folder_name name (response @ [newline])
      (?s3\<lparr>stdin := typed rounds (CHR ''y'' # newline # rest)\<rparr>))
      = Some (sanitize_folder_name (last (name # map snd rounds)))"
    by (rule Cons.IH) (simp_all add: more)
  then show ?case
    by (subst prompt_user_for_folder_name.simps) (simp add: body round)
qed

lemma confirmed_c:
  assumes "prompt_user_for_folder_name raw response s = Some y"
  shows "sanitize_folder_name (fst y) = fst y"
    and "\<forall>c\<in>set (fst y). c \<notin> set invalid \<and> \<not> iscntrl c"
proof -
  from prompt_user_for_folder_name_result [OF assms]
  obtain x where "fst y = sanitize_folder_name x" ..
  then have c: "clean (fst y)" and l: "length (fst y) \<le> MAX_NAME_LEN - 1"
    using clean_sanitize_folder_name [of x] length_sanitize_folder_name [of x] by simp_all
  show "sanitize_folder_name (fst y) = fst y"
    by (rule sanitize_folder_name_fix [OF c l])
  show "\<forall>c\<in>set (fst y). c \<notin> set invalid \<and> \<not> iscntrl c"
    using clean_chars [OF c] by blast
qed

lemma confirmed_cpp:
  assumes "promptForFolderName raw s = Some y"
  shows "sanitizeFolderName (fst y) = fst y"
    and "\<forall>c\<in>set (fst y). c \<notin> set invalid \<and> \<not> iscntrl c"
proof -
  from promptForFolderName_loop_result [OF assms [unfolded promptForFolderName_def]]
  obtain x where "fst y = sanitizeFolderName x" ..
  then have c: "clean (fst y)"
    by (simp add: clean_sanitizeFolderName)
  show "sanitizeFolderName (fst y) = fst y"
    by (rule sanitizeFolderName_fix [OF c])
  show "\<forall>c\<in>set (fst y). c \<notin> set invalid \<and> \<not> iscntrl c"
    using clean_chars [OF c] by blast
qed


text \<open>
  Claim C10: whenever the confirmation loop returns, after any number of rejected and
  retyped names, the name it returns is a fixed point of the sanitizer and holds no
  reserved and no control character. This holds for the loop of \<^verbatim>\<open>main.c\<close> and for the
  loop of \<^verbatim>\<open>main.cpp\<close>. And the loop does return: after any number of rounds of a
  rejection and a new name, the answer \<^verbatim>\<open>y\<close> makes it return the sanitized form of the
  name typed last (of the first name, when there was no round).
\<close>

theorem confirmed_name_is_fixpoint:
  "(prompt_user_for_folder_name raw response s = Some y \<longrightarrow>
      sanitize_folder_name (fst y) = fst y
      \<and> (\<forall>c\<in>set (fst y). c \<notin> set invalid \<and> \<not> iscntrl c))
   \<and> (promptForFolderName raw s = Some y \<longrightarrow>
      sanitizeFolderName (fst y) = fst y
      \<and> (\<forall>c\<in>set (fst y). c \<notin> set invalid \<and> \<not> iscntrl c))
   \<and> (stdin s = typed rounds (CHR ''y'' # newline # rest)
      \<and> list_all (\<lambda>(response, name). rejection response \<and> typed_name name) rounds \<longrightarrow>
      map_option fst (prompt_user_for_folder_name raw response s)
        = Some (sanitize_folder_name (last (raw # map snd rounds)))
      \<and> (stdin_good s \<longrightarrow>
          map_option fst (promptForFolderName raw s)
            = Some (sanitizeFolderName (last (raw # map snd rounds)))))"
  using confirmed_c [of raw response s y] confirmed_cpp [of raw s y]
    prompt_user_for_folder_name_returns [of s rounds rest raw response]
    promptForFolderName_loop_returns [of s rounds rest raw]
  unfolding promptForFolderName_def by blast

theorem confirmed_name_is_fixpoint_witness:
  "map_option fst (prompt_user_for_folder_name ''a<b'' []
        (fresh_system\<lparr>stdin := ''n'' @ [newline] @ ''my dir'' @ [newline] @ ''y'' @ [newline]\<rparr>))
      = Some ''my_dir''
   \<and> map_option fst (promptForFolderName ''a<b''
        (fresh_system\<lparr>stdin := ''n'' @ [newline] @ ''my dir'' @ [newline] @ ''y'' @ [newline]\<rparr>))
      = Some ''my_dir''
   \<and> sanitize_folder_name ''my_dir'' = ''my_dir'' \<and> sanitizeFolderName ''my_dir'' = ''my_dir''
   \<and> list_all (\<lambda>c. c \<notin> set invalid \<and> \<not> iscntrl c) ''my_dir''"
proof -
  let ?s = "fresh_system\<lparr>stdin := ''n'' @ [newline] @ ''my dir'' @ [newline] @ ''y'' @ [newline]\<rparr>"
  let ?rounds = "[(''n'', ''my dir'')]"
  have H: "stdin ?s = typed ?rounds (CHR ''y'' # newline # [])
      \<and> list_all (\<lambda>(response, name). rejection response \<and> typed_name name) ?rounds"
    by (simp add: fresh_system_def rejection_def typed_name_def first_char_def char_defs)
  have good: "stdin_good ?s" by (simp add: fresh_system_def)
  have n: "sanitize_folder_name (last (''a<b'' # map snd ?rounds)) = ''my_dir''"
    "sanitizeFolderName (last (''a<b'' # map snd ?rounds)) = ''my_dir''"
    by (simp_all add: sanitize_folder_name_def sanitizeFolderName_def MAX_NAME_LEN_def char_defs)
  note T = confirmed_name_is_fixpoint [of "''a<b''" "[]" ?s _ ?rounds "[]"]
  from T [THEN conjunct2, THEN conjunct2, THEN mp, OF H] good
  have r: "map_option fst (prompt_user_for_folder_name ''a<b'' [] ?s) = Some ''my_dir''"
    "map_option fst (promptForFolderName ''a<b'' ?s) = Some ''my_dir''"
    by (simp_all only: n simp_thms)
  then obtain y z where y: "prompt_user_for_folder_name ''a<b'' [] ?s = Some y" "fst y = ''my_dir''"
    and z: "promptForFolderName ''a<b'' ?s = Some z" "fst z = ''my_dir''"
    by (auto simp: map_option_case split: option.splits)
  from T [of y, THEN conjunct1, THEN mp, OF y(1)]
  have 1: "sanitize_folder_name ''my_dir'' = ''my_dir''"
    "\<forall>c\<in>set ''my_dir''. c \<notin> set invalid \<and> \<not> iscntrl c"
    unfolding y(2) by blast+
  from T [of z, THEN conjunct2, THEN conjunct1, THEN mp, OF z(1)]
  have 2: "sanitizeFolderName ''my_dir'' = ''my_dir''"
    unfolding z(2) by blast
  from r 1 2 show ?thesis by (simp only: list_all_iff simp_thms)
qed


section \<open>The end of input in the C program\<close>

text \<open>
  \<^verbatim>\<open>main.c\<close> does not look at the result of \<^verbatim>\<open>fgets\<close>. When standard input has ended,
  the buffer \<^verbatim>\<open>response\<close> keeps what it held, and that decides: a rejected answer from
  the pass before, or whatever the unassigned buffer holds in the first pass.
\<close>

lemma prompt_user_for_folder_name_body_eof:
  "stdin s = [] \<Longrightarrow>
   isl (prompt_user_for_folder_name_body finalName response s)
     \<longleftrightarrow> tolower (first_char response) = CHR ''y''"
  by (simp add: prompt_user_for_folder_name_body_def Let_def fgets_stdin_def fgets_def
      print_out_fields)

text \<open>
  Claim C8: at every yes/no prompt only an answer whose first character is \<^verbatim>\<open>y\<close> or
  \<^verbatim>\<open>Y\<close> is a yes, and no input is a no. \<^verbatim>\<open>main.cpp\<close> does so; \<^verbatim>\<open>main.c\<close> does not at
  the end of input. With nothing left on standard input and a buffer \<^verbatim>\<open>response\<close> that
  happens to start with \<^verbatim>\<open>y\<close>, the confirmation loop of \<^verbatim>\<open>main.c\<close> returns the
  sanitized name, and its configuration step saves the suggested base directory without
  asking for another. On the same input \<^verbatim>\<open>main.cpp\<close> takes the missing answer as a no:
  its loop goes round again and its configuration step asks for a base directory.
\<close>

theorem no_input_taken_as_yes:
  "prompt_user_for_folder_name ''a<b'' ''y'' (fresh_system\<lparr>stdin := []\<rparr>) =
     Some (''ab'',
           fresh_system\<lparr>stdin := [],
             stdout := [''Sanitized folder name: '' @ [CHR 0x22] @ ''ab'' @ [CHR 0x22, CHR 0x0A],
                        ''Do you want to use this name? (y/n): '']\<rparr>)
   \<and> fst (read_or_create_config MAX_PATH_LEN ''y'' (fresh_system\<lparr>stdin := []\<rparr>)) =
       Some (''/home/u'' @ [CHR 0x5C] @ ''Projects'')
   \<and> stdout (snd (read_or_create_config MAX_PATH_LEN ''y'' (fresh_system\<lparr>stdin := []\<rparr>))) =
       [''Config file not found.'' @ [CHR 0x0A],
        ''Suggested default base directory: /home/u'' @ [CHR 0x5C] @ ''Projects'' @ [CHR 0x0A],
        ''Use this as your base directory? (y/n): '',
        ''Saved base directory to config file.'' @ [CHR 0x0A]]
   \<and> \<not> isl (promptForFolderName_body ''a<b'' (fresh_system\<lparr>stdin := []\<rparr>))
   \<and> (\<exists>basePath v. readOrCreateBasePath (fresh_system\<lparr>stdin := []\<rparr>) = Returns basePath v
        \<and> stdout v =
           [''Config file not found.'' @ [CHR 0x0A],
            ''Suggested default base directory: /home/u'' @ [CHR 0x5C] @ ''Projects'' @ [CHR 0x0A],
            ''Use this as your base directory? (y/n): '',
            ''Enter your preferred base directory: '',
            ''Saved base directory to config file.'' @ [CHR 0x0A]])"
proof -
  let ?s = "fresh_system\<lparr>stdin := []\<rparr>"
  have san: "sanitize_folder_name ''a<b'' = ''ab''"
    by (simp add: sanitize_folder_name_def MAX_NAME_LEN_def char_defs)
  have 1: "prompt_user_for_folder_name ''a<b'' ''y'' ?s =
     Some (''ab'',
           fresh_system\<lparr>stdin := [],
             stdout := [''Sanitized folder name: '' @ [CHR 0x22] @ ''ab'' @ [CHR 0x22, CHR 0x0A],
                        ''Do you want to use this name? (y/n): '']\<rparr>)"
    by (subst prompt_user_for_folder_name.simps)
      (simp add: prompt_user_for_folder_name_body_def Let_def print_out_def fgets_stdin_def
        fgets_def first_char_def tolower_y san sanitized_message_def dquote_def newline_def
        fresh_system_def)
  have 2: "read_or_create_config MAX_PATH_LEN ''y'' ?s =
       (Some (''/home/u'' @ [CHR 0x5C] @ ''Projects''),
        fresh_system\<lparr>stdin := [], dirs := {''/home/u'' @ CONFIG_DIR},
          files := [config_file ''/home/u'' \<mapsto> ''/home/u'' @ [CHR 0x5C] @ ''Projects'' @ [CHR 0x0A]],
          stdout := [''Config file not found.'' @ [CHR 0x0A],
        ''Suggested default base directory: /home/u'' @ [CHR 0x5C] @ ''Projects'' @ [CHR 0x0A],
        ''Use this as your base directory? (y/n): '',
        ''Saved base directory to config file.'' @ [CHR 0x0A]]\<rparr>)"
    unfolding read_or_create_config_def get_config_path_fresh [of "[]"]
    by (simp add: Let_def print_out_def fgets_stdin_def fgets_def first_char_def tolower_y
        fresh_system_def getenv_USERPROFILE_def snprintf_def MAX_PATH_LEN_def c_str_def
        NUL_def newline_def backslash_def)
  have 3: "\<not> isl (promptForFolderName_body ''a<b'' ?s)"
    by (simp add: promptForFolderName_body_yes)
  have 4: "\<exists>basePath v. readOrCreateBasePath ?s = Returns basePath v
        \<and> stdout v =
           [''Config file not found.'' @ [CHR 0x0A],
            ''Suggested default base directory: /home/u'' @ [CHR 0x5C] @ ''Projects'' @ [CHR 0x0A],
            ''Use this as your base directory? (y/n): '',
            ''Enter your preferred base directory: '',
            ''Saved base directory to config file.'' @ [CHR 0x0A]]"
    unfolding readOrCreateBasePath_def getConfigFilePath_fresh [of "[]"]
    by (simp add: Let_def print_out_def getline_cin_def getline_def first_char_def tolower_y
        fresh_system_def getUserProfile_def getenv_USERPROFILE_def exists_path_def
        config_file_def CONFIG_DIR_def CONFIG_FILE_def DEFAULT_SUBDIR_def path_append_def
        has_filename_def ofstream_write_def ifstream_def c_str_def
        NUL_def newline_def backslash_def)
  from 1 2 3 4 show ?thesis by simp
qed

end
